theory Spec2Isabelle
  imports Complex_Main "HOL-Library.Sublist"
begin

section \<open>Strings of the host language\<close>

text \<open>
  A string is a list of characters. \<open>split_space\<close> is \<^verbatim>\<open>s.split(' ')\<close>: it cuts at
  every single space character, keeps empty pieces and never returns the empty list
  (\<^verbatim>\<open>''.split(' ')\<close> is \<^verbatim>\<open>['']\<close>). \<open>js_join sep\<close> is \<^verbatim>\<open>xs.join(sep)\<close>.
\<close>

fun split_space :: "string \<Rightarrow> string list" where
  "split_space [] = [[]]"
| "split_space (c # cs) =
     (if c = CHR '' '' then [] # split_space cs
      else (case split_space cs of [] \<Rightarrow> [[c]] | w # ws \<Rightarrow> (c # w) # ws))"

fun js_join :: "string \<Rightarrow> string list \<Rightarrow> string" where
  "js_join sep [] = []"
| "js_join sep [w] = w"
| "js_join sep (w # v # ws) = w @ sep @ js_join sep (v # ws)"

definition join_space :: "string list \<Rightarrow> string" where
  "join_space ws = js_join '' '' ws"

text \<open>
  \<^verbatim>\<open>s.toLowerCase()\<close>, a character being a code unit below 256: the capital letters
  \<open>A\<close> to \<open>Z\<close> and those from U+00C0 to U+00DE, the multiplication sign U+00D7
  apart, are moved up by 32, and every other character is left as it is.
\<close>

definition lower_char :: "char \<Rightarrow> char" where
  "lower_char c =
     (let n = of_char c :: nat
      in if (65 \<le> n \<and> n \<le> 90) \<or> (192 \<le> n \<and> n \<le> 222 \<and> n \<noteq> 215)
         then char_of (n + 32) else c)"

definition toLowerCase :: "string \<Rightarrow> string" where
  "toLowerCase s = map lower_char s"

text \<open>\<^verbatim>\<open>hay.includes(needle)\<close>: \<open>needle\<close> occurs in \<open>hay\<close> as a contiguous run.\<close>

fun includes_str :: "string \<Rightarrow> string \<Rightarrow> bool" where
  "includes_str [] needle = (needle = [])"
| "includes_str (c # cs) needle = (prefix needle (c # cs) \<or> includes_str cs needle)"

section \<open>Streaming of an answer (lib/utils: streamText)\<close>

text \<open>
  The generator yields \<^verbatim>\<open>words[i] + (i < words.length - 1 ? ' ' : '')\<close> for
  \<open>i = 0, \<dots>, words.length - 1\<close>, each after a pause of \<open>delayMs\<close>. The model is the
  list of the chunks in the order they are yielded; the pause does not enter a chunk.
\<close>

definition stream_chunk :: "string list \<Rightarrow> nat \<Rightarrow> string" where
  "stream_chunk words i = words ! i @ (if i < length words - 1 then '' '' else [])"

definition streamText :: "string \<Rightarrow> nat \<Rightarrow> string list" where
  "streamText text delayMs =
     (let words = split_space text in map (stream_chunk words) [0..<length words])"

section \<open>Data model (types/index.ts)\<close>

text \<open>
  \<open>properties\<close> is a \<^verbatim>\<open>Record<string, unknown>\<close>: an association list in insertion
  order whose values are JSON values. Numbers are the integers here, of magnitude below
  \<open>10\<^sup>2\<^sup>1\<close> so that the host prints all their digits, and keys are taken
  not to look like array indices, so that the order of the list is the order in which the
  host language enumerates the keys.
\<close>

datatype node_type = Person | Company | Technology | Concept | Document

datatype json =
    JString string
  | JNumber int
  | JBool bool
  | JNull
  | JArray "json list"
  | JObject "(string \<times> json) list"

record GraphNode =
  node_id :: string
  node_label :: string
  node_type :: node_type
  node_properties :: "(string \<times> json) list"

text \<open>
  \<^verbatim>\<open>source: string | GraphNode\<close>: an endpoint of a relationship is a node id or a
  reference to a node object.
\<close>

datatype endpoint = EndId string | EndNode GraphNode

record GraphRelationship =
  rel_id :: string
  rel_source :: endpoint
  rel_target :: endpoint
  rel_type :: string
  rel_properties :: "(string \<times> json) list option"

record GraphData =
  nodes :: "GraphNode list"
  relationships :: "GraphRelationship list"

fun endpoint_id :: "endpoint \<Rightarrow> string" where
  "endpoint_id (EndId s) = s"
| "endpoint_id (EndNode n) = node_id n"

text \<open>
  A valid Graph Store: node ids are unique and every relationship's endpoints are ids of
  nodes of the store.
\<close>

definition valid_store :: "GraphData \<Rightarrow> bool" where
  "valid_store g \<longleftrightarrow>
     distinct (map node_id (nodes g)) \<and>
     list_all (\<lambda>r. endpoint_id (rel_source r) \<in> set (map node_id (nodes g)) \<and>
                    endpoint_id (rel_target r) \<in> set (map node_id (nodes g)))
       (relationships g)"

section \<open>Serialisation of attributes (JSON.stringify)\<close>

fun show_nat :: "nat \<Rightarrow> string" where
  "show_nat n =
     (if n < 10 then [char_of (48 + n)] else show_nat (n div 10) @ [char_of (48 + n mod 10)])"

definition show_int :: "int \<Rightarrow> string" where
  "show_int i = (if i < 0 then CHR ''-'' # show_nat (nat (- i)) else show_nat (nat i))"

definition hex_digit :: "nat \<Rightarrow> char" where
  "hex_digit d = (if d < 10 then char_of (48 + d) else char_of (87 + d))"

definition json_escape_char :: "char \<Rightarrow> string" where
  "json_escape_char c =
     (let n = of_char c :: nat in
      if n = 34 then [CHR 0x5C, CHR 0x22]
      else if n = 92 then [CHR 0x5C, CHR 0x5C]
      else if n = 8 then [CHR 0x5C, CHR ''b'']
      else if n = 12 then [CHR 0x5C, CHR ''f'']
      else if n = 10 then [CHR 0x5C, CHR ''n'']
      else if n = 13 then [CHR 0x5C, CHR ''r'']
      else if n = 9 then [CHR 0x5C, CHR ''t'']
      else if n < 32 then [CHR 0x5C, CHR ''u'', CHR ''0'', CHR ''0'', hex_digit (n div 16), hex_digit (n mod 16)]
      else [c])"

definition json_quote :: "string \<Rightarrow> string" where
  "json_quote s = CHR 0x22 # concat (map json_escape_char s) @ [CHR 0x22]"

fun JSON_stringify :: "json \<Rightarrow> string" where
  "JSON_stringify (JString s) = json_quote s"
| "JSON_stringify (JNumber i) = show_int i"
| "JSON_stringify (JBool b) = (if b then ''true'' else ''false'')"
| "JSON_stringify JNull = ''null''"
| "JSON_stringify (JArray xs) = ''['' @ js_join '','' (map JSON_stringify xs) @ '']''"
| "JSON_stringify (JObject kvs) =
     ''{'' @ js_join '','' (map (\<lambda>kv. json_quote (fst kv) @ '':'' @ JSON_stringify (snd kv)) kvs) @ ''}''"

section \<open>Relevance retrieval (App: simulateGraphRetrieval)\<close>

text \<open>
  \<^verbatim>\<open>`${node.label} ${JSON.stringify(node.properties)}`.toLowerCase()\<close>
\<close>

definition nodeText :: "GraphNode \<Rightarrow> string" where
  "nodeText node =
     toLowerCase (node_label node @ '' '' @ JSON_stringify (JObject (node_properties node)))"

text \<open>
  \<^verbatim>\<open>keywords.some(keyword => keyword.length > 3 && nodeText.includes(keyword))\<close>
\<close>

definition node_matches :: "string list \<Rightarrow> GraphNode \<Rightarrow> bool" where
  "node_matches keywords node =
     list_ex (\<lambda>keyword. length keyword > 3 \<and> includes_str (nodeText node) keyword) keywords"

text \<open>The nodes that pass the filter, before \<^verbatim>\<open>.slice(0, 3)\<close>.\<close>

definition matching_nodes :: "string \<Rightarrow> GraphData \<Rightarrow> GraphNode list" where
  "matching_nodes query graphData =
     (let keywords = split_space (toLowerCase query)
      in filter (node_matches keywords) (nodes graphData))"

text \<open>
  The function waits 500 ms and then returns the filtered nodes cut to the first three; the
  wait does not enter the result.
\<close>

definition simulateGraphRetrieval :: "string \<Rightarrow> GraphData \<Rightarrow> GraphNode list" where
  "simulateGraphRetrieval query graphData = take 3 (matching_nodes query graphData)"

text \<open>
  The reading of the tokens by the words "whitespace-separated": the maximal runs of
  characters other than space, tab, line feed, vertical tab, form feed and carriage return.
\<close>

definition is_whitespace :: "char \<Rightarrow> bool" where
  "is_whitespace c \<longleftrightarrow> (of_char c :: nat) \<in> {32, 9, 10, 11, 12, 13}"

fun whitespace_tokens :: "string \<Rightarrow> string list" where
  "whitespace_tokens [] = []"
| "whitespace_tokens (c # cs) =
     (if is_whitespace c then whitespace_tokens cs
      else (case cs of
              [] \<Rightarrow> [[c]]
            | d # ds \<Rightarrow>
                (if is_whitespace d then [c] # whitespace_tokens cs
                 else (case whitespace_tokens cs of [] \<Rightarrow> [[c]] | w # ws \<Rightarrow> (c # w) # ws))))"

definition whitespace_node_matches :: "string \<Rightarrow> GraphNode \<Rightarrow> bool" where
  "whitespace_node_matches query node =
     list_ex (\<lambda>token. length token > 3 \<and> includes_str (nodeText node) token)
       (whitespace_tokens (toLowerCase query))"

section \<open>Selection and highlight state (App, GraphVisualization)\<close>

record highlight_state =
  selectedNode :: "GraphNode option"
  highlightedNodes :: "string list"

definition handleNodeSelect :: "GraphNode option \<Rightarrow> 'a highlight_state_scheme \<Rightarrow> 'a highlight_state_scheme" where
  "handleNodeSelect node s =
     (case node of
        Some n \<Rightarrow> s\<lparr>selectedNode := node, highlightedNodes := [node_id n]\<rparr>
      | None \<Rightarrow> s\<lparr>selectedNode := node, highlightedNodes := []\<rparr>)"

definition handleSourceClick :: "GraphNode \<Rightarrow> 'a highlight_state_scheme \<Rightarrow> 'a highlight_state_scheme" where
  "handleSourceClick node s = s\<lparr>selectedNode := Some node, highlightedNodes := [node_id node]\<rparr>"

text \<open>
  The click handler of a node's circle:
  \<^verbatim>\<open>onNodeSelect(selectedNode?.id === d.id ? null : d)\<close>; the click on the background:
  \<^verbatim>\<open>onNodeSelect(null)\<close>.
\<close>

definition node_click :: "GraphNode \<Rightarrow> 'a highlight_state_scheme \<Rightarrow> 'a highlight_state_scheme" where
  "node_click d s =
     handleNodeSelect
       (if map_option node_id (selectedNode s) = Some (node_id d) then None else Some d) s"

definition background_click :: "'a highlight_state_scheme \<Rightarrow> 'a highlight_state_scheme" where
  "background_click s = handleNodeSelect None s"

section \<open>The fixed dataset (data/sampleGraph.ts)\<close>

definition node_genai :: GraphNode where
  "node_genai =
     \<lparr>node_id = ''genai'', node_label = ''Generative AI'', node_type = Concept,
      node_properties =
        [(''description'', JString ''AI systems that can generate new content based on training data''),
         (''challenges'', JString ''Hallucinations, lack of transparency, factual accuracy'')]\<rparr>"

definition node_rag :: GraphNode where
  "node_rag =
     \<lparr>node_id = ''rag'', node_label = ''RAG (Retrieval Augmented Generation)'', node_type = Technology,
      node_properties =
        [(''description'', JString ''Architecture pattern that grounds LLMs with retrieved contextual information''),
         (''benefit'', JString ''Reduces hallucinations by 40-60%'')]\<rparr>"

definition node_graphrag :: GraphNode where
  "node_graphrag =
     \<lparr>node_id = ''graphrag'', node_label = ''GraphRAG'', node_type = Technology,
      node_properties =
        [(''description'', JString ''RAG enhanced with graph database for relationship-aware context retrieval''),
         (''advantage'', JString ''Understands complex multi-hop relationships between entities'')]\<rparr>"

definition node_llm :: GraphNode where
  "node_llm =
     \<lparr>node_id = ''llm'', node_label = ''Large Language Model'', node_type = Technology,
      node_properties =
        [(''description'', JString ''Neural network trained on vast amounts of text data''),
         (''examples'', JString ''GPT-4, Claude, Llama'')]\<rparr>"

definition node_neo4j :: GraphNode where
  "node_neo4j =
     \<lparr>node_id = ''neo4j'', node_label = ''Neo4j'', node_type = Technology,
      node_properties =
        [(''description'', JString ''Leading graph database platform''),
         (''strength'', JString ''Optimized for relationship traversal and pattern matching'')]\<rparr>"

definition node_vectordb :: GraphNode where
  "node_vectordb =
     \<lparr>node_id = ''vectordb'', node_label = ''Vector Database'', node_type = Technology,
      node_properties =
        [(''description'', JString ''Database optimized for similarity search using embeddings''),
         (''limitation'', JString ''Does not capture semantic relationships between entities'')]\<rparr>"

definition node_cypher :: GraphNode where
  "node_cypher =
     \<lparr>node_id = ''cypher'', node_label = ''Cypher'', node_type = Technology,
      node_properties =
        [(''description'', JString ''Neo4j's declarative graph query language''),
         (''feature'', JString ''Pattern matching syntax for intuitive relationship queries'')]\<rparr>"

definition node_knowledge_management :: GraphNode where
  "node_knowledge_management =
     \<lparr>node_id = ''knowledge-management'', node_label = ''Enterprise Knowledge Management'', node_type = Concept,
      node_properties =
        [(''useCase'', JString ''Connecting siloed information across departments''),
         (''benefit'', JString ''Enables AI to answer questions requiring cross-domain knowledge'')]\<rparr>"

definition node_recommendation :: GraphNode where
  "node_recommendation =
     \<lparr>node_id = ''recommendation'', node_label = ''Intelligent Recommendations'', node_type = Concept,
      node_properties =
        [(''useCase'', JString ''Personalized suggestions based on user behavior and item relationships''),
         (''example'', JString ''E-commerce product recommendations'')]\<rparr>"

definition node_fraud_detection :: GraphNode where
  "node_fraud_detection =
     \<lparr>node_id = ''fraud-detection'', node_label = ''Fraud Detection'', node_type = Concept,
      node_properties =
        [(''useCase'', JString ''Identifying suspicious patterns in transaction networks''),
         (''advantage'', JString ''Detects complex fraud rings through relationship analysis'')]\<rparr>"

definition node_nasa :: GraphNode where
  "node_nasa =
     \<lparr>node_id = ''nasa'', node_label = ''NASA'', node_type = Company,
      node_properties =
        [(''achievement'', JString ''Got to Mars 2 years earlier using Neo4j''),
         (''application'', JString ''Mission planning and resource optimization'')]\<rparr>"

definition node_icij :: GraphNode where
  "node_icij =
     \<lparr>node_id = ''icij'', node_label = ''ICIJ'', node_type = Company,
      node_properties =
        [(''achievement'', JString ''Broke Panama Papers story''),
         (''application'', JString ''Uncovering hidden financial networks'')]\<rparr>"

definition node_explainability :: GraphNode where
  "node_explainability =
     \<lparr>node_id = ''explainability'', node_label = ''AI Explainability'', node_type = Concept,
      node_properties =
        [(''description'', JString ''Ability to trace and understand AI decision-making process''),
         (''importance'', JString ''Critical for regulated industries and trust'')]\<rparr>"

definition node_accuracy :: GraphNode where
  "node_accuracy =
     \<lparr>node_id = ''accuracy'', node_label = ''Response Accuracy'', node_type = Concept,
      node_properties =
        [(''description'', JString ''Correctness and factual grounding of AI-generated content''),
         (''challenge'', JString ''LLMs tend to hallucinate without proper grounding'')]\<rparr>"

definition node_context :: GraphNode where
  "node_context =
     \<lparr>node_id = ''context'', node_label = ''Contextual Understanding'', node_type = Concept,
      node_properties =
        [(''description'', JString ''Comprehension of relationships and semantic connections''),
         (''graphAdvantage'', JString ''Graphs naturally encode context through relationships'')]\<rparr>"

definition sampleGraphData :: GraphData where
  "sampleGraphData =
     \<lparr>nodes =
        [node_genai,
         node_rag,
         node_graphrag,
         node_llm,
         node_neo4j,
         node_vectordb,
         node_cypher,
         node_knowledge_management,
         node_recommendation,
         node_fraud_detection,
         node_nasa,
         node_icij,
         node_explainability,
         node_accuracy,
         node_context],
      relationships =
       [\<lparr>rel_id = ''r1'', rel_source = EndId ''genai'', rel_target = EndId ''llm'',
        rel_type = ''POWERED_BY'', rel_properties = None\<rparr>,
        \<lparr>rel_id = ''r2'', rel_source = EndId ''rag'', rel_target = EndId ''genai'',
        rel_type = ''IMPROVES'', rel_properties = None\<rparr>,
        \<lparr>rel_id = ''r3'', rel_source = EndId ''graphrag'', rel_target = EndId ''rag'',
        rel_type = ''ENHANCES'', rel_properties = None\<rparr>,
        \<lparr>rel_id = ''r4'', rel_source = EndId ''graphrag'', rel_target = EndId ''neo4j'',
        rel_type = ''USES'', rel_properties = None\<rparr>,
        \<lparr>rel_id = ''r5'', rel_source = EndId ''rag'', rel_target = EndId ''vectordb'',
        rel_type = ''OFTEN_USES'', rel_properties = None\<rparr>,
        \<lparr>rel_id = ''r6'', rel_source = EndId ''neo4j'', rel_target = EndId ''cypher'',
        rel_type = ''PROVIDES'', rel_properties = None\<rparr>,
        \<lparr>rel_id = ''r7'', rel_source = EndId ''graphrag'', rel_target = EndId ''cypher'',
        rel_type = ''QUERIES_WITH'', rel_properties = None\<rparr>,
        \<lparr>rel_id = ''r8'', rel_source = EndId ''graphrag'', rel_target = EndId ''accuracy'',
        rel_type = ''IMPROVES'', rel_properties = None\<rparr>,
        \<lparr>rel_id = ''r9'', rel_source = EndId ''graphrag'', rel_target = EndId ''explainability'',
        rel_type = ''ENABLES'', rel_properties = None\<rparr>,
        \<lparr>rel_id = ''r10'', rel_source = EndId ''graphrag'', rel_target = EndId ''context'',
        rel_type = ''CAPTURES'', rel_properties = None\<rparr>,
        \<lparr>rel_id = ''r11'', rel_source = EndId ''neo4j'', rel_target = EndId ''context'',
        rel_type = ''EXCELS_AT'', rel_properties = None\<rparr>,
        \<lparr>rel_id = ''r12'', rel_source = EndId ''knowledge-management'', rel_target = EndId ''graphrag'',
        rel_type = ''LEVERAGES'', rel_properties = None\<rparr>,
        \<lparr>rel_id = ''r13'', rel_source = EndId ''recommendation'', rel_target = EndId ''neo4j'',
        rel_type = ''POWERED_BY'', rel_properties = None\<rparr>,
        \<lparr>rel_id = ''r14'', rel_source = EndId ''fraud-detection'', rel_target = EndId ''neo4j'',
        rel_type = ''RELIES_ON'', rel_properties = None\<rparr>,
        \<lparr>rel_id = ''r15'', rel_source = EndId ''nasa'', rel_target = EndId ''neo4j'',
        rel_type = ''USES'', rel_properties = None\<rparr>,
        \<lparr>rel_id = ''r16'', rel_source = EndId ''icij'', rel_target = EndId ''neo4j'',
        rel_type = ''USES'', rel_properties = None\<rparr>,
        \<lparr>rel_id = ''r17'', rel_source = EndId ''nasa'', rel_target = EndId ''knowledge-management'',
        rel_type = ''APPLIED_FOR'', rel_properties = None\<rparr>,
        \<lparr>rel_id = ''r18'', rel_source = EndId ''icij'', rel_target = EndId ''fraud-detection'',
        rel_type = ''APPLIED_FOR'', rel_properties = None\<rparr>,
        \<lparr>rel_id = ''r19'', rel_source = EndId ''accuracy'', rel_target = EndId ''genai'',
        rel_type = ''CHALLENGE_FOR'', rel_properties = Some [(''severity'', JString ''high'')]\<rparr>,
        \<lparr>rel_id = ''r20'', rel_source = EndId ''explainability'', rel_target = EndId ''genai'',
        rel_type = ''CHALLENGE_FOR'', rel_properties = Some [(''severity'', JString ''high'')]\<rparr>,
        \<lparr>rel_id = ''r21'', rel_source = EndId ''neo4j'', rel_target = EndId ''vectordb'',
        rel_type = ''COMPLEMENTS'', rel_properties = None\<rparr>,
        \<lparr>rel_id = ''r22'', rel_source = EndId ''context'', rel_target = EndId ''accuracy'',
        rel_type = ''LEADS_TO'', rel_properties = None\<rparr>]\<rparr>"

record SampleQuery =
  natural :: string
  cypher :: string
  explanation :: string

definition sampleQuery1 :: SampleQuery where
  "sampleQuery1 =
     \<lparr>natural = ''How does GraphRAG improve AI accuracy?'',
      cypher =
        (''MATCH path = (graphrag:Technology {label: 'GraphRAG'})-[*1..3]-(accuracy:Concept '' @
         ''{label: 'Response Accuracy'})'' @ [CHR 0x0A] @
         ''RETURN path''),
      explanation =
        ''Multi-hop pattern matching to find all paths between GraphRAG and Accuracy''\<rparr>"

definition sampleQuery2 :: SampleQuery where
  "sampleQuery2 =
     \<lparr>natural = ''What companies use Neo4j and for what purpose?'',
      cypher =
        (''MATCH (company:Company)-[:USES]->(neo4j:Technology {label: 'Neo4j'})'' @ [CHR 0x0A] @
         ''MATCH (company)-[:APPLIED_FOR]->(useCase)'' @ [CHR 0x0A] @
         ''RETURN company.label as Company, useCase.label as UseCase, company.achievement as '' @
         ''Achievement''),
      explanation =
        ''Relationship traversal to connect companies with their use cases''\<rparr>"

definition sampleQuery3 :: SampleQuery where
  "sampleQuery3 =
     \<lparr>natural = ''How is GraphRAG different from regular RAG?'',
      cypher =
        (''MATCH (graphrag:Technology {label: 'GraphRAG'})-[:ENHANCES]->(rag:Technology)'' @ [CHR 0x0A] @
         ''MATCH (graphrag)-[:USES]->(tech)'' @ [CHR 0x0A] @
         ''MATCH (rag)-[:OFTEN_USES]->(altTech)'' @ [CHR 0x0A] @
         ''RETURN graphrag, rag, tech, altTech''),
      explanation =
        ''Pattern comparison showing architectural differences''\<rparr>"

definition sampleQuery4 :: SampleQuery where
  "sampleQuery4 =
     \<lparr>natural = ''What are the main challenges facing GenAI?'',
      cypher =
        (''MATCH (challenge)-[r:CHALLENGE_FOR]->(genai:Concept {label: 'Generative AI'})'' @ [CHR 0x0A] @
         ''RETURN challenge.label as Challenge, challenge.description as Description, '' @
         ''r.severity as Severity'' @ [CHR 0x0A] @
         ''ORDER BY r.severity DESC''),
      explanation =
        ''Relationship properties used for filtering and sorting''\<rparr>"

definition sampleQueries :: "SampleQuery list" where
  "sampleQueries = [sampleQuery1, sampleQuery2, sampleQuery3, sampleQuery4]"

section \<open>Canned answers (App: handleSendMessage, generateResponse)\<close>

text \<open>
  \<^verbatim>\<open>q.natural.toLowerCase().split(' ').slice(0, 3).join(' ').toLowerCase()\<close>
\<close>

definition query_prefix :: "SampleQuery \<Rightarrow> string" where
  "query_prefix q = toLowerCase (js_join '' '' (take 3 (split_space (toLowerCase (natural q)))))"

text \<open>
  \<^verbatim>\<open>sampleQueries.find(q => content.toLowerCase().includes(...))\<close>
\<close>

definition matchingQuery :: "string \<Rightarrow> SampleQuery option" where
  "matchingQuery content =
     find (\<lambda>q. includes_str (toLowerCase content) (query_prefix q)) sampleQueries"

text \<open>The table \<^verbatim>\<open>responses\<close> of \<open>generateResponse\<close>, in the order of its keys.\<close>

definition response1 :: string where
  "response1 =
     (''GraphRAG significantly improves AI accuracy by leveraging graph databases to '' @
      ''provide relationship-aware context to language models. Unlike traditional RAG '' @
      ''systems that retrieve isolated documents, GraphRAG understands how entities are '' @
      ''connected. This enables the AI to:'' @ [CHR 0x0A] @
      [CHR 0x0A] @
      ''1. Follow multi-hop relationships to find relevant context'' @ [CHR 0x0A] @
      ''2. Understand semantic connections between concepts'' @ [CHR 0x0A] @
      ''3. Provide citations that show the reasoning path'' @ [CHR 0x0A] @
      ''4. Reduce hallucinations by grounding responses in structured knowledge'' @ [CHR 0x0A] @
      [CHR 0x0A] @
      ''The graph structure naturally encodes the relationships that make responses more '' @
      ''accurate and explainable.'')"

definition response2 :: string where
  "response2 =
     (''Several leading organizations use Neo4j for mission-critical applications:'' @ [CHR 0x0A] @
      [CHR 0x0A] @
      ''NASA uses Neo4j for mission planning and resource optimization, which helped them '' @
      ''reach Mars 2 years earlier than originally planned. The graph database's ability to '' @
      ''model complex relationships between resources, schedules, and constraints was '' @
      ''essential.'' @ [CHR 0x0A] @ [CHR 0x0A] @
      ''The International Consortium of Investigative Journalists (ICIJ) used Neo4j to '' @
      ''break the Panama Papers story, uncovering hidden financial networks by traversing '' @
      ''relationships between shell companies, individuals, and transactions.'' @ [CHR 0x0A] @
      [CHR 0x0A] @
      ''These use cases demonstrate how graph databases excel at revealing patterns in '' @
      ''highly connected data.'')"

definition response3 :: string where
  "response3 =
     (''GraphRAG enhances traditional RAG by replacing or augmenting vector databases with '' @
      ''graph databases:'' @ [CHR 0x0A] @ [CHR 0x0A] @
      ''Traditional RAG typically uses vector databases for similarity-based retrieval, '' @
      ''which finds semantically similar documents but doesn't capture relationships '' @
      ''between entities.'' @ [CHR 0x0A] @ [CHR 0x0A] @
      ''GraphRAG uses Neo4j's graph structure to:'' @ [CHR 0x0A] @
      ''- Query with Cypher for precise pattern matching'' @ [CHR 0x0A] @
      ''- Traverse relationships to find multi-hop context'' @ [CHR 0x0A] @
      ''- Understand how entities are connected'' @ [CHR 0x0A] @
      ''- Provide transparent reasoning paths'' @ [CHR 0x0A] @
      [CHR 0x0A] @
      ''While vector databases are great for similarity search, they miss the semantic '' @
      ''relationships that graphs naturally encode. The ideal architecture often combines '' @
      ''both: vectors for similarity, graphs for relationships.'')"

definition response4 :: string where
  "response4 =
     (''Generative AI faces several critical challenges that graph databases help address:'' @
      [CHR 0x0A] @ [CHR 0x0A] @
      ''1. **Response Accuracy**: LLMs tend to hallucinate or generate plausible-sounding '' @
      ''but incorrect information. GraphRAG grounds responses in factual, structured '' @
      ''knowledge from the graph.'' @ [CHR 0x0A] @
      [CHR 0x0A] @
      ''2. **AI Explainability**: Understanding how an AI arrived at a conclusion is '' @
      ''crucial for trust and compliance. Graphs provide transparent reasoning paths by '' @
      ''showing the relationships traversed to generate a response.'' @ [CHR 0x0A] @
      [CHR 0x0A] @
      ''3. **Contextual Understanding**: Comprehending complex relationships between '' @
      ''entities is difficult for traditional approaches. Graphs naturally encode context '' @
      ''through their relationship structure.'' @ [CHR 0x0A] @
      [CHR 0x0A] @
      ''These challenges are especially severe in regulated industries where accuracy and '' @
      ''explainability are mandatory.'')"

definition responses :: "(string \<times> string) list" where
  "responses =
     [(''How does GraphRAG improve AI accuracy?'', response1),
      (''What companies use Neo4j and for what purpose?'', response2),
      (''How is GraphRAG different from regular RAG?'', response3),
      (''What are the main challenges facing GenAI?'', response4)]"

text \<open>
  A value inside a template string is converted to a string, and the left operand of
  \<^verbatim>\<open>||\<close> is taken when it is truthy.
\<close>

fun js_to_string :: "json \<Rightarrow> string" where
  "js_to_string (JString s) = s"
| "js_to_string (JNumber i) = show_int i"
| "js_to_string (JBool b) = (if b then ''true'' else ''false'')"
| "js_to_string JNull = ''null''"
| "js_to_string (JArray xs) =
     js_join '','' (map (\<lambda>x. if x = JNull then [] else js_to_string x) xs)"
| "js_to_string (JObject kvs) = ''[object Object]''"

fun js_truthy :: "json \<Rightarrow> bool" where
  "js_truthy (JString s) = (s \<noteq> [])"
| "js_truthy (JNumber i) = (i \<noteq> 0)"
| "js_truthy (JBool b) = b"
| "js_truthy JNull = False"
| "js_truthy (JArray xs) = True"
| "js_truthy (JObject kvs) = True"

definition no_information_found :: "string \<Rightarrow> string" where
  "no_information_found query =
     ''I searched the knowledge graph but couldn't find specific information about '' @
     [CHR 0x22] @ query @ [CHR 0x22] @
     ''. The graph contains information about GenAI, graph databases, and their '' @
     ''real-world applications. Try asking about GraphRAG, Neo4j use cases, or how graphs '' @
     ''improve AI accuracy.''"

definition default_description :: string where
  "default_description =
     ''These concepts are interconnected in the graph, showing how they relate to your '' @
     ''question.''"

text \<open>
  \<^verbatim>\<open>sources[0].properties.description || 'These concepts are ...'\<close>
\<close>

definition description_or_default :: "GraphNode \<Rightarrow> string" where
  "description_or_default node =
     (case map_of (node_properties node) ''description'' of
        None \<Rightarrow> default_description
      | Some v \<Rightarrow> if js_truthy v then js_to_string v else default_description)"

definition generic_response :: "string \<Rightarrow> GraphNode list \<Rightarrow> string" where
  "generic_response query sources =
     (case sources of
        [] \<Rightarrow> no_information_found query
      | first # _ \<Rightarrow>
          ''Based on the knowledge graph, I found relevant information in '' @
          js_join '', '' (map node_label sources) @ ''. '' @
          description_or_default first @
          '' The graph structure helps me understand these relationships and provide more '' @
          ''accurate, explainable responses.'')"

definition generateResponse :: "string \<Rightarrow> GraphNode list \<Rightarrow> SampleQuery option \<Rightarrow> string" where
  "generateResponse query sources matching =
     (case matching of
        None \<Rightarrow> generic_response query sources
      | Some mq \<Rightarrow>
          (case find (\<lambda>entry. includes_str (natural mq) (fst entry)) responses of
             Some matchingResponse \<Rightarrow> snd matchingResponse
           | None \<Rightarrow> generic_response query sources))"

text \<open>
  What \<open>handleSendMessage\<close> computes for a submitted text: the retrieved nodes, the
  text of the answer and the query pattern shown with it (\<^verbatim>\<open>matchingQuery?.cypher\<close>).
\<close>

record answer =
  relevantNodes :: "GraphNode list"
  responseText :: string
  cypherQuery :: "string option"

definition answer_query :: "string \<Rightarrow> GraphData \<Rightarrow> answer" where
  "answer_query content graphData =
     (let matching = matchingQuery content;
          relevant = simulateGraphRetrieval content graphData
      in \<lparr>relevantNodes = relevant,
          responseText = generateResponse content relevant matching,
          cypherQuery = map_option cypher matching\<rparr>)"

text \<open>
  The reading of the generic answer by the words "the first-available description
  attribute" of the retrieved nodes: the description of the first retrieved node that has
  one, and the fixed sentence when none has.
\<close>

definition first_available_description :: "GraphNode list \<Rightarrow> string" where
  "first_available_description sources =
     (case filter js_truthy
             (List.map_filter (\<lambda>n. map_of (node_properties n) ''description'') sources) of
        [] \<Rightarrow> default_description
      | v # _ \<Rightarrow> js_to_string v)"

definition worded_generic_response :: "string \<Rightarrow> GraphNode list \<Rightarrow> string" where
  "worded_generic_response query sources =
     (case sources of
        [] \<Rightarrow> no_information_found query
      | first # _ \<Rightarrow>
          ''Based on the knowledge graph, I found relevant information in '' @
          js_join '', '' (map node_label sources) @ ''. '' @
          first_available_description sources @
          '' The graph structure helps me understand these relationships and provide more '' @
          ''accurate, explainable responses.'')"

section \<open>Drawing of relationships (GraphVisualization)\<close>

text \<open>
  The effect first builds the simulation and then draws the lines. Building it installs
  \<^verbatim>\<open>d3.forceLink(data.relationships).id(d => d.id)\<close>, and the library initialises a
  link force by replacing, in each link object, a \<open>source\<close> or \<open>target\<close> that is not
  an object by the node with that id; it throws when there is no such node. The node
  index is a \<^verbatim>\<open>Map\<close> built from the nodes in order, so of two nodes with one id the later
  is found. The link objects are those of \<open>data.relationships\<close>, changed in place.
\<close>

datatype d3_error = NodeNotFound string

definition find_node :: "GraphNode list \<Rightarrow> string \<Rightarrow> GraphNode option" where
  "find_node ns i = map_of (map (\<lambda>n. (node_id n, n)) (rev ns)) i"

fun resolve_endpoint :: "GraphNode list \<Rightarrow> endpoint \<Rightarrow> d3_error + endpoint" where
  "resolve_endpoint ns (EndNode n) = Inr (EndNode n)"
| "resolve_endpoint ns (EndId i) =
     (case find_node ns i of None \<Rightarrow> Inl (NodeNotFound i) | Some n \<Rightarrow> Inr (EndNode n))"

fun forceLink_initialize ::
  "GraphNode list \<Rightarrow> GraphRelationship list \<Rightarrow> d3_error + GraphRelationship list" where
  "forceLink_initialize ns [] = Inr []"
| "forceLink_initialize ns (l # ls) =
     (case resolve_endpoint ns (rel_source l) of
        Inl e \<Rightarrow> Inl e
      | Inr s \<Rightarrow>
          (case resolve_endpoint ns (rel_target l) of
             Inl e \<Rightarrow> Inl e
           | Inr t \<Rightarrow>
               (case forceLink_initialize ns ls of
                  Inl e \<Rightarrow> Inl e
                | Inr ls' \<Rightarrow> Inr (l\<lparr>rel_source := s, rel_target := t\<rparr> # ls'))))"

text \<open>
  \<^verbatim>\<open>highlightedNodes.includes(d.source as string)\<close>: the array holds strings, and the
  cast changes nothing at run time, so a node object is never found in it.
\<close>

definition highlighted_includes :: "string list \<Rightarrow> endpoint \<Rightarrow> bool" where
  "highlighted_includes highlighted e =
     (case e of EndId i \<Rightarrow> i \<in> set highlighted | EndNode n \<Rightarrow> False)"

definition link_highlighted :: "string list \<Rightarrow> GraphRelationship \<Rightarrow> bool" where
  "link_highlighted highlighted d \<longleftrightarrow>
     highlighted_includes highlighted (rel_source d) \<and>
     highlighted_includes highlighted (rel_target d)"

definition link_stroke :: "string list \<Rightarrow> GraphRelationship \<Rightarrow> string" where
  "link_stroke highlighted d = (if link_highlighted highlighted d then ''#008CC1'' else ''#cbd5e1'')"

text \<open>
  The lines drawn by one run of the effect, on a mounted component: the id of each
  relationship and its stroke. With no nodes the effect returns before it builds
  anything (\<^verbatim>\<open>if (!svgRef.current || !data.nodes.length) return\<close>).
\<close>

definition draw_links :: "string list \<Rightarrow> GraphData \<Rightarrow> d3_error + (string \<times> string) list" where
  "draw_links highlighted data =
     (if nodes data = [] then Inr []
      else (case forceLink_initialize (nodes data) (relationships data) of
              Inl e \<Rightarrow> Inl e
            | Inr links \<Rightarrow> Inr (map (\<lambda>d. (rel_id d, link_stroke highlighted d)) links)))"

text \<open>
  The store of the scenario: the nodes \<open>graphrag\<close>, \<open>rag\<close> and \<open>neo4j\<close> of the dataset
  with the relationships \<open>r3\<close> (graphrag ENHANCES rag) and \<open>r4\<close> (graphrag USES neo4j).
\<close>

definition scenario_store :: GraphData where
  "scenario_store =
     \<lparr>nodes = [node_graphrag, node_rag, node_neo4j],
      relationships =
        [\<lparr>rel_id = ''r3'', rel_source = EndId ''graphrag'', rel_target = EndId ''rag'',
          rel_type = ''ENHANCES'', rel_properties = None\<rparr>,
         \<lparr>rel_id = ''r4'', rel_source = EndId ''graphrag'', rel_target = EndId ''neo4j'',
          rel_type = ''USES'', rel_properties = None\<rparr>]\<rparr>"

section \<open>Force layout\<close>

text \<open>
  A node the simulation has placed carries a position, a velocity and, while it is held,
  a fixed position: \<^verbatim>\<open>x, y, vx, vy: number\<close> and \<^verbatim>\<open>fx, fy: number | null\<close>.
  Coordinates are real numbers here.
\<close>

record LayoutNode = GraphNode +
  node_x :: real
  node_y :: real
  node_vx :: real
  node_vy :: real
  node_fx :: "real option"
  node_fy :: "real option"

text \<open>
  The drag handlers of GraphVisualization, as they assign to the dragged node \<open>d\<close>:
  \<^verbatim>\<open>d.fx = d.x; d.fy = d.y\<close> at the start, \<^verbatim>\<open>d.fx = event.x; d.fy = event.y\<close> on
  every move and \<^verbatim>\<open>d.fx = null; d.fy = null\<close> at the end.
\<close>

definition dragstarted :: "LayoutNode \<Rightarrow> LayoutNode" where
  "dragstarted d = d\<lparr>node_fx := Some (node_x d), node_fy := Some (node_y d)\<rparr>"

definition dragged :: "real \<Rightarrow> real \<Rightarrow> LayoutNode \<Rightarrow> LayoutNode" where
  "dragged event_x event_y d = d\<lparr>node_fx := Some event_x, node_fy := Some event_y\<rparr>"

definition dragended :: "LayoutNode \<Rightarrow> LayoutNode" where
  "dragended d = d\<lparr>node_fx := None, node_fy := None\<rparr>"

record layout =
  alpha :: real
  layout_nodes :: "LayoutNode list"

text \<open>
  Modelled from the spec: the tick of the force simulation and the loop that runs it are
  the d3 library's and not among the source files. By the spec a tick multiplies
  \<open>alpha\<close> by \<open>1 - decayRate\<close> with \<open>decayRate\<close> about 0.0228, computes the net force on
  every node, adds \<open>force * alpha\<close> to the velocity and the velocity to the position, and
  for a node with a pinned position overwrites the position with the pin and zeroes the
  velocity after the integration; ticking continues until \<open>alpha\<close> is below the
  threshold 0.001. The net force of the four forces on the node at an index is a
  parameter of the model.
\<close>

definition decayRate :: real where
  "decayRate = 228 / 10000"

definition alphaMin :: real where
  "alphaMin = 1 / 1000"

definition integrate :: "real \<Rightarrow> real \<times> real \<Rightarrow> LayoutNode \<Rightarrow> LayoutNode" where
  "integrate a force n =
     (let vx = node_vx n + fst force * a;
          vy = node_vy n + snd force * a;
          moved = n\<lparr>node_x := node_x n + vx, node_y := node_y n + vy,
                    node_vx := vx, node_vy := vy\<rparr>;
          pinned_x = (case node_fx n of
                        None \<Rightarrow> moved
                      | Some px \<Rightarrow> moved\<lparr>node_x := px, node_vx := 0\<rparr>)
      in (case node_fy n of
            None \<Rightarrow> pinned_x
          | Some py \<Rightarrow> pinned_x\<lparr>node_y := py, node_vy := 0\<rparr>))"

definition tick :: "(LayoutNode list \<Rightarrow> nat \<Rightarrow> real \<times> real) \<Rightarrow> layout \<Rightarrow> layout" where
  "tick net_force L =
     (let a = alpha L * (1 - decayRate);
          ns = layout_nodes L
      in \<lparr>alpha = a,
          layout_nodes = map (\<lambda>i. integrate a (net_force ns i) (ns ! i)) [0..<length ns]\<rparr>)"

text \<open>
  Ticking until the layout has settled; the result is the number of ticks made and the
  settled layout, and \<open>None\<close> stands for a run that never settles.
\<close>

partial_function (option) run_to_settlement ::
  "(LayoutNode list \<Rightarrow> nat \<Rightarrow> real \<times> real) \<Rightarrow> layout \<Rightarrow> nat \<Rightarrow> (nat \<times> layout) option" where
  "run_to_settlement net_force L n =
     (if alpha L < alphaMin then Some (n, L)
      else run_to_settlement net_force (tick net_force L) (Suc n))"

text \<open>
  A layout with the node \<open>graphrag\<close> held at the pointer position \<open>(10, 20)\<close>, and a
  constant force, for the examples.
\<close>

definition held_layout :: layout where
  "held_layout =
     \<lparr>alpha = 1,
      layout_nodes =
        [dragged 10 20
           \<lparr>node_id = ''graphrag'', node_label = ''GraphRAG'', node_type = Technology,
            node_properties = [], node_x = 3, node_y = 4, node_vx = 1, node_vy = 1,
            node_fx = None, node_fy = None\<rparr>]\<rparr>"

definition constant_force :: "LayoutNode list \<Rightarrow> nat \<Rightarrow> real \<times> real" where
  "constant_force ns i = (1, - 1)"

section \<open>Messages, timers and events (App: handleSendMessage)\<close>

text \<open>
  The id of a message is \<^verbatim>\<open>`msg-${Date.now()}`\<close> for the user's message and
  \<^verbatim>\<open>`msg-${Date.now()}-assistant`\<close> for the answer: the clock's value in milliseconds
  and the kind, which the string determines and which determine the string.
\<close>

datatype message_id = UserMessage nat | AssistantMessage nat

datatype role = User | Assistant

record Message =
  msg_id :: message_id
  msg_role :: role
  msg_content :: string
  msg_timestamp :: nat
  msg_sources :: "GraphNode list option"
  msg_cypherQuery :: "string option"
  msg_isStreaming :: "bool option"

text \<open>
  \<open>handleSendMessage\<close> is an asynchronous function: it runs until it waits for a timer
  and goes on when the timer has expired. What is left to run after a wait is a
  continuation, with the values of the local variables it uses:
  \<^item> \<open>AfterPlanning content\<close> after the 800 ms of the simulated processing;
  \<^item> \<open>AfterRetrieval content matchingQuery\<close> after the 500 ms inside
    \<open>simulateGraphRetrieval\<close>;
  \<^item> \<open>NextChunk id words i streamedContent\<close> after each wait of 30 ms in \<open>streamText\<close>,
    before chunk \<open>i\<close> is yielded;
  \<^item> \<open>ClearHighlights\<close>, the callback \<^verbatim>\<open>() => setHighlightedNodes([])\<close> set for 3000 ms
    after the streaming has ended.
\<close>

datatype continuation =
    AfterPlanning string
  | AfterRetrieval string "SampleQuery option"
  | NextChunk message_id "string list" nat string
  | ClearHighlights

text \<open>
  The state of the application, the clock, and the timers that are set, each with the
  time from which it may expire, in the order they were set.
\<close>

record world = highlight_state +
  messages :: "Message list"
  isLoading :: bool
  now :: nat
  pending :: "(nat \<times> continuation) list"

definition initial_world :: world where
  "initial_world =
     \<lparr>selectedNode = None, highlightedNodes = [], messages = [], isLoading = False,
      now = 0, pending = []\<rparr>"

text \<open>The part of \<open>handleSendMessage\<close> that runs at once, at time \<open>t\<close>.\<close>

definition handleSendMessage :: "nat \<Rightarrow> string \<Rightarrow> world \<Rightarrow> world" where
  "handleSendMessage t content w =
     w\<lparr>messages := messages w @
          [\<lparr>msg_id = UserMessage t, msg_role = User, msg_content = content,
            msg_timestamp = t, msg_sources = None, msg_cypherQuery = None,
            msg_isStreaming = None\<rparr>],
       isLoading := True,
       pending := pending w @ [(t + 800, AfterPlanning content)]\<rparr>"

text \<open>
  \<^verbatim>\<open>prev.map(msg => msg.id === assistantMessage.id ? { ...msg, content } : msg)\<close> and the
  same for \<open>isStreaming\<close>.
\<close>

definition set_content :: "message_id \<Rightarrow> string \<Rightarrow> Message list \<Rightarrow> Message list" where
  "set_content mid text ms = map (\<lambda>m. if msg_id m = mid then m\<lparr>msg_content := text\<rparr> else m) ms"

definition end_streaming :: "message_id \<Rightarrow> Message list \<Rightarrow> Message list" where
  "end_streaming mid ms =
     map (\<lambda>m. if msg_id m = mid then m\<lparr>msg_isStreaming := Some False\<rparr> else m) ms"

text \<open>A continuation runs at time \<open>t\<close>, up to the next wait or to the end of the function.\<close>

fun resume :: "GraphData \<Rightarrow> nat \<Rightarrow> continuation \<Rightarrow> world \<Rightarrow> world" where
  "resume g t (AfterPlanning content) w =
     w\<lparr>pending := pending w @ [(t + 500, AfterRetrieval content (matchingQuery content))]\<rparr>"
| "resume g t (AfterRetrieval content matching) w =
     (let relevant = simulateGraphRetrieval content g;
          text = generateResponse content relevant matching
      in w\<lparr>highlightedNodes := map node_id relevant,
            messages := messages w @
              [\<lparr>msg_id = AssistantMessage t, msg_role = Assistant, msg_content = [],
                msg_timestamp = t, msg_sources = Some relevant,
                msg_cypherQuery = map_option cypher matching,
                msg_isStreaming = Some True\<rparr>],
            isLoading := False,
            pending := pending w @ [(t + 30, NextChunk (AssistantMessage t) (split_space text) 0 [])]\<rparr>)"
| "resume g t (NextChunk mid words i streamedContent) w =
     (let streamed = streamedContent @ stream_chunk words i;
          ms = set_content mid streamed (messages w)
      in if Suc i < length words
         then w\<lparr>messages := ms,
                pending := pending w @ [(t + 30, NextChunk mid words (Suc i) streamed)]\<rparr>
         else w\<lparr>messages := end_streaming mid ms,
                pending := pending w @ [(t + 3000, ClearHighlights)]\<rparr>)"
| "resume g t ClearHighlights w = w\<lparr>highlightedNodes := []\<rparr>"

text \<open>
  What can happen, each with the time at which it happens: a text is submitted, a node's
  circle or the background is clicked, a source of an answer is clicked, the details
  panel is closed, or the timer at a position of the list expires and its continuation
  runs. Time does not go back, and a timer does not expire before its time; it may expire
  later, and in any order with the other timers, as the host gives no more than that.
\<close>

datatype event =
    Submit nat string
  | NodeClick nat GraphNode
  | BackgroundClick nat
  | SourceClick nat GraphNode
  | CloseDetails nat
  | Fire nat nat

fun event_time :: "event \<Rightarrow> nat" where
  "event_time (Submit t content) = t"
| "event_time (NodeClick t d) = t"
| "event_time (BackgroundClick t) = t"
| "event_time (SourceClick t d) = t"
| "event_time (CloseDetails t) = t"
| "event_time (Fire t k) = t"

fun react :: "GraphData \<Rightarrow> event \<Rightarrow> world \<Rightarrow> world option" where
  "react g (Submit t content) w = Some (handleSendMessage t content w)"
| "react g (NodeClick t d) w = Some (node_click d w)"
| "react g (BackgroundClick t) w = Some (background_click w)"
| "react g (SourceClick t d) w = Some (handleSourceClick d w)"
| "react g (CloseDetails t) w = Some (w\<lparr>selectedNode := None\<rparr>)"
| "react g (Fire t k) w =
     (if k < length (pending w) \<and> fst (pending w ! k) \<le> t
      then Some (resume g t (snd (pending w ! k))
                   (w\<lparr>pending := take k (pending w) @ drop (Suc k) (pending w)\<rparr>))
      else None)"

definition step :: "GraphData \<Rightarrow> event \<Rightarrow> world \<Rightarrow> world option" where
  "step g e w = (if now w \<le> event_time e then react g e (w\<lparr>now := event_time e\<rparr>) else None)"

fun run :: "GraphData \<Rightarrow> event list \<Rightarrow> world \<Rightarrow> world option" where
  "run g [] w = Some w"
| "run g (e # es) w = (case step g e w of None \<Rightarrow> None | Some w' \<Rightarrow> run g es w')"



text \<open>
  A session in which a second text is submitted while the answer to the first is being
  streamed: \<open>hi\<close> is submitted at 0, its answer is streamed from 1330 to 2410 in 37
  chunks, and \<open>yo\<close> is submitted at 1405, after the third chunk; its answer is streamed
  in 37 chunks from 2735. Every timer expires at its time, and the position of a timer is
  its place among the timers set at that moment.
\<close>

definition two_queries_trace :: "event list" where
  "two_queries_trace =
     [Submit 0 ''hi'', Fire 800 0, Fire 1300 0] @
     [Fire 1330 0, Fire 1360 0, Fire 1390 0] @
     [Submit 1405 ''yo'', Fire 1420 0] @
     map (\<lambda>j. Fire (1300 + 30 * j) 1) [5..<31] @
     [Fire 2205 0, Fire 2230 0] @
     map (\<lambda>j. Fire (1300 + 30 * j) 1) [32..<38] @
     [Fire 2705 0] @
     [Fire 2735 1] @ map (\<lambda>j. Fire (2705 + 30 * j) 1) [2..<38]"

definition contents :: "world \<Rightarrow> string list" where
  "contents w = map msg_content (messages w)"


text \<open>
  The emission of the answer in message \<open>mid\<close>, cut into \<open>words\<close>, is going on when
  exactly one timer of its chunks is set, for a chunk \<open>i\<close> of the answer and with the
  chunks before \<open>i\<close> as the content streamed so far. It is complete when no timer of its
  chunks is set and every message with that id holds the whole answer.
\<close>

definition chunk_of :: "message_id \<Rightarrow> nat \<times> continuation \<Rightarrow> bool" where
  "chunk_of mid p = (case snd p of NextChunk m words i streamedContent \<Rightarrow> m = mid | _ \<Rightarrow> False)"

definition streamed_prefix :: "string list \<Rightarrow> nat \<Rightarrow> string" where
  "streamed_prefix words i = concat (map (stream_chunk words) [0..<i])"

definition emitting :: "message_id \<Rightarrow> string list \<Rightarrow> world \<Rightarrow> bool" where
  "emitting mid words w =
     (case filter (chunk_of mid) (pending w) of
        [p] \<Rightarrow> (case snd p of
                  NextChunk m ws i streamedContent \<Rightarrow>
                    ws = words \<and> i < length words \<and> streamedContent = streamed_prefix words i
                | _ \<Rightarrow> False)
      | _ \<Rightarrow> False)"

definition emitted :: "message_id \<Rightarrow> string list \<Rightarrow> world \<Rightarrow> bool" where
  "emitted mid words w \<longleftrightarrow>
     filter (chunk_of mid) (pending w) = [] \<and>
     list_all (\<lambda>m. msg_id m = mid \<longrightarrow> msg_content m = join_space words) (messages w)"

text \<open>
  The state of the session of the two texts after the third chunk of the first answer,
  just before the second text is submitted.
\<close>

definition mid_emission_world :: world where
  "mid_emission_world =
     \<lparr>selectedNode = None, highlightedNodes = [],
      messages =
        [\<lparr>msg_id = UserMessage 0, msg_role = User, msg_content = ''hi'', msg_timestamp = 0,
          msg_sources = None, msg_cypherQuery = None, msg_isStreaming = None\<rparr>,
         \<lparr>msg_id = AssistantMessage 1300, msg_role = Assistant,
          msg_content = ''I searched the '', msg_timestamp = 1300, msg_sources = Some [],
          msg_cypherQuery = None, msg_isStreaming = Some True\<rparr>],
      isLoading = False, now = 1390,
      pending =
        [(1420, NextChunk (AssistantMessage 1300) (split_space (no_information_found ''hi'')) 3
                  (streamed_prefix (split_space (no_information_found ''hi'')) 3))]\<rparr>"

section \<open>Round trip of the streamed chunks\<close>

lemma split_space_not_Nil: "split_space s \<noteq> []"
  by (induction s) (auto split: list.splits)

lemma join_space_Nil: "join_space [] = []"
  by (simp add: join_space_def)

lemma join_space_Cons_nonempty: "ws \<noteq> [] \<Longrightarrow> join_space (w # ws) = w @ '' '' @ join_space ws"
  by (cases ws) (simp_all add: join_space_def)

lemma join_space_push: "join_space ((c # w) # ws) = c # join_space (w # ws)"
  by (cases ws) (simp_all add: join_space_def)

lemma join_split_space: "join_space (split_space s) = s"
proof (induction s)
  case Nil
  show ?case by (simp add: join_space_def)
next
  case (Cons c cs)
  show ?case
  proof (cases "c = CHR '' ''")
    case True
    with Cons show ?thesis
      by (simp add: join_space_Cons_nonempty split_space_not_Nil)
  next
    case False
    obtain w ws where sp: "split_space cs = w # ws"
      using split_space_not_Nil [of cs] by (cases "split_space cs") auto
    with False Cons show ?thesis
      by (simp add: join_space_push)
  qed
qed

lemma concat_chunks_from:
  "concat (map (stream_chunk (pre @ ws)) [length pre..<length pre + length ws]) = join_space ws"
proof (induction ws arbitrary: pre)
  case Nil
  show ?case by (simp add: join_space_Nil)
next
  case (Cons w ws)
  have step: "concat (map (stream_chunk ((pre @ [w]) @ ws))
                 [length (pre @ [w])..<length (pre @ [w]) + length ws]) = join_space ws"
    by (rule Cons.IH)
  have hd_chunk: "stream_chunk (pre @ w # ws) (length pre) = w @ (if ws = [] then [] else '' '')"
    by (cases ws) (simp_all add: stream_chunk_def)
  have "[length pre..<length pre + length (w # ws)] =
          length pre # [Suc (length pre)..<Suc (length pre) + length ws]"
    by (subst upt_rec) simp
  then have "concat (map (stream_chunk (pre @ w # ws)) [length pre..<length pre + length (w # ws)])
        = stream_chunk (pre @ w # ws) (length pre) @ join_space ws"
    using step by simp
  also have "\<dots> = join_space (w # ws)"
    using hd_chunk by (cases ws) (simp_all add: join_space_def)
  finally show ?case .
qed

text \<open>
  C10. For every text and every delay, the chunks yielded by \<open>streamText\<close>, concatenated in
  the order they are yielded, are the text itself: cutting at the spaces and putting one
  space back after every chunk but the last loses nothing, repeated spaces included.
\<close>

theorem streamText_roundtrip: "concat (streamText text delayMs) = text"
proof -
  have "concat (map (stream_chunk ([] @ split_space text))
          [length ([] :: string list)..<length ([] :: string list) + length (split_space text)])
        = join_space (split_space text)"
    by (rule concat_chunks_from)
  then show ?thesis
    by (simp add: streamText_def Let_def join_split_space)
qed

section \<open>Retrieval\<close>

lemma includes_str_iff_sublist: "includes_str hay needle \<longleftrightarrow> sublist needle hay"
  by (induction hay) (simp_all add: sublist_Cons_right)

lemma node_matches_iff:
  "node_matches keywords n \<longleftrightarrow> (\<exists>k\<in>set keywords. 3 < length k \<and> sublist k (nodeText n))"
  by (simp add: node_matches_def list_ex_iff includes_str_iff_sublist)

lemma scenario_store_ids:
  "map node_id (nodes scenario_store) = [''graphrag'', ''rag'', ''neo4j'']"
  by (simp add: scenario_store_def node_graphrag_def node_rag_def node_neo4j_def)

lemma valid_scenario_store: "valid_store scenario_store"
  unfolding valid_store_def scenario_store_ids
  by (simp add: scenario_store_def)

text \<open>
  C1. For every query and every valid Graph Store, retrieval returns at most three nodes
  (the code has no limit other than three), with pairwise distinct ids, all of them nodes
  of the store, and they are the first three matching nodes in the order of the store's
  node list: the matches are cut to three, not ranked.
\<close>

theorem retrieval_first_three_matches:
  assumes "valid_store g"
  shows "length (simulateGraphRetrieval q g) \<le> 3 \<and>
         distinct (map node_id (simulateGraphRetrieval q g)) \<and>
         set (simulateGraphRetrieval q g) \<subseteq> set (nodes g) \<and>
         simulateGraphRetrieval q g =
           take 3 (filter (node_matches (split_space (toLowerCase q))) (nodes g))"
proof -
  let ?ms = "filter (node_matches (split_space (toLowerCase q))) (nodes g)"
  have eq: "simulateGraphRetrieval q g = take 3 ?ms"
    by (simp add: simulateGraphRetrieval_def matching_nodes_def)
  from assms have "distinct (map node_id (nodes g))"
    by (simp add: valid_store_def)
  then have "distinct (map node_id ?ms)"
    by (rule distinct_map_filter)
  then have d: "distinct (map node_id (take 3 ?ms))"
    by (simp add: take_map [symmetric])
  have sub: "set (take 3 ?ms) \<subseteq> set (nodes g)"
    using set_take_subset [of 3 ?ms] by auto
  show ?thesis
    unfolding eq using d sub by simp
qed

theorem retrieval_first_three_matches_witness:
  "valid_store scenario_store \<and>
   length (simulateGraphRetrieval ''what is graphrag'' scenario_store) \<le> 3 \<and>
   distinct (map node_id (simulateGraphRetrieval ''what is graphrag'' scenario_store)) \<and>
   set (simulateGraphRetrieval ''what is graphrag'' scenario_store) \<subseteq> set (nodes scenario_store)"
  using valid_scenario_store
    retrieval_first_three_matches [OF valid_scenario_store, of "''what is graphrag''"]
  by blast

lemma nodeText_graphrag:
  "nodeText node_graphrag =
     ''graphrag {'' @ [CHR 0x22] @ ''description'' @ [CHR 0x22] @ '':'' @ [CHR 0x22] @
     ''rag enhanced with graph database for relationship-aware context retrieval'' @
     [CHR 0x22] @ '','' @ [CHR 0x22] @ ''advantage'' @ [CHR 0x22] @ '':'' @ [CHR 0x22] @
     ''understands complex multi-hop relationships between entities'' @ [CHR 0x22] @ ''}''"
  by code_simp

text \<open>
  C2, as the code has it. A node is among the matches of a query exactly when it is a node
  of the store and some piece of the lowercased query between single space characters,
  longer than three characters, occurs in the lowercased text made of the node's label, a
  space and the JSON text of its attributes. A query whose pieces all have length at most
  three, the empty query among them, retrieves nothing.
\<close>

theorem matches_iff_space_token:
  "(n \<in> set (matching_nodes q g) \<longleftrightarrow>
      n \<in> set (nodes g) \<and>
      (\<exists>t\<in>set (split_space (toLowerCase q)). 3 < length t \<and> sublist t (nodeText n))) \<and>
   ((\<forall>t\<in>set (split_space (toLowerCase q)). length t \<le> 3) \<longrightarrow>
      simulateGraphRetrieval q g = []) \<and>
   simulateGraphRetrieval [] g = []"
proof -
  have iff: "n \<in> set (matching_nodes q g) \<longleftrightarrow>
      n \<in> set (nodes g) \<and>
      (\<exists>t\<in>set (split_space (toLowerCase q)). 3 < length t \<and> sublist t (nodeText n))"
    by (auto simp: matching_nodes_def node_matches_iff)
  have short: "simulateGraphRetrieval q' g = []"
    if "\<forall>t\<in>set (split_space (toLowerCase q')). length t \<le> 3" for q'
  proof -
    have "\<not> node_matches (split_space (toLowerCase q')) m" for m
      using that by (auto simp: node_matches_iff)
    then have "matching_nodes q' g = []"
      by (simp add: matching_nodes_def)
    then show ?thesis
      by (simp add: simulateGraphRetrieval_def)
  qed
  have "simulateGraphRetrieval [] g = []"
    by (rule short) (simp add: toLowerCase_def)
  with iff short show ?thesis
    by blast
qed

theorem matches_iff_space_token_witness:
  "node_graphrag \<in> set (matching_nodes ''what is graphrag'' scenario_store) \<and>
   simulateGraphRetrieval ''how is it'' scenario_store = []"
proof -
  have tokens: "split_space (toLowerCase ''what is graphrag'') = [''what'', ''is'', ''graphrag'']"
    by code_simp
  have "includes_str (nodeText node_graphrag) ''graphrag''"
    unfolding nodeText_graphrag by simp
  then have occurs: "sublist ''graphrag'' (nodeText node_graphrag)"
    by (simp add: includes_str_iff_sublist)
  have "\<exists>t\<in>set (split_space (toLowerCase ''what is graphrag'')).
          3 < length t \<and> sublist t (nodeText node_graphrag)"
    unfolding tokens using occurs by simp
  moreover have "node_graphrag \<in> set (nodes scenario_store)"
    by (simp add: scenario_store_def)
  moreover have "split_space (toLowerCase ''how is it'') = [''how'', ''is'', ''it'']"
    by code_simp
  then have "\<forall>t\<in>set (split_space (toLowerCase ''how is it'')). length t \<le> 3"
    by simp
  ultimately show ?thesis
    using matches_iff_space_token [of node_graphrag "''what is graphrag''" scenario_store]
      matches_iff_space_token [of node_graphrag "''how is it''" scenario_store]
    by blast
qed

text \<open>
  C2, as it is worded, fails. The query \<open>graphrag\<close>, line feed, \<open>neo4j\<close> (two lines typed
  into the message box) has the whitespace-separated token \<open>graphrag\<close>, which occurs in
  the text of the node \<open>graphrag\<close>; the code cuts at spaces only, keeps the two lines as
  one keyword, and does not match the node.
\<close>

theorem whitespace_token_counterexample:
  "whitespace_node_matches (''graphrag'' @ [CHR 0x0A] @ ''neo4j'') node_graphrag \<and>
   node_graphrag \<in> set (nodes scenario_store) \<and>
   node_graphrag \<notin> set (matching_nodes (''graphrag'' @ [CHR 0x0A] @ ''neo4j'') scenario_store)"
proof -
  have low: "toLowerCase (''graphrag'' @ [CHR 0x0A] @ ''neo4j'') = ''graphrag'' @ [CHR 0x0A] @ ''neo4j''"
    by code_simp
  have ws: "whitespace_tokens (''graphrag'' @ [CHR 0x0A] @ ''neo4j'') = [''graphrag'', ''neo4j'']"
    by code_simp
  have sp: "split_space (''graphrag'' @ [CHR 0x0A] @ ''neo4j'') = [''graphrag'' @ [CHR 0x0A] @ ''neo4j'']"
    by code_simp
  have a: "whitespace_node_matches (''graphrag'' @ [CHR 0x0A] @ ''neo4j'') node_graphrag"
    unfolding whitespace_node_matches_def low ws nodeText_graphrag by simp
  have "\<not> node_matches (split_space (toLowerCase (''graphrag'' @ [CHR 0x0A] @ ''neo4j''))) node_graphrag"
    unfolding node_matches_def low sp nodeText_graphrag by simp
  then have b: "node_graphrag \<notin> set (matching_nodes (''graphrag'' @ [CHR 0x0A] @ ''neo4j'') scenario_store)"
    by (simp add: matching_nodes_def)
  have c: "node_graphrag \<in> set (nodes scenario_store)"
    by (simp add: scenario_store_def)
  from a b c show ?thesis by blast
qed

section \<open>Selection\<close>

lemma node_click_unselected:
  assumes "map_option node_id (selectedNode s) \<noteq> Some (node_id d)"
  shows "node_click d s = s\<lparr>selectedNode := Some d, highlightedNodes := [node_id d]\<rparr>"
  using assms by (simp add: node_click_def handleNodeSelect_def)

lemma node_click_selected:
  assumes "map_option node_id (selectedNode s) = Some (node_id d)"
  shows "node_click d s = s\<lparr>selectedNode := None, highlightedNodes := []\<rparr>"
  using assms by (simp add: node_click_def handleNodeSelect_def)

text \<open>
  C9, as the code has it. A select is a click on the node. When the node is not the
  selected one, the first click selects it and makes it the highlight set, and the second
  click, on the node now selected, clears the selection and the highlight set. When the
  node is the selected one already, the first click clears both and the second selects
  the node again, so that the highlight set is the node and not empty. Calling
  \<open>handleNodeSelect\<close> with the node, twice, never toggles: the node stays highlighted.
\<close>

theorem select_twice_toggles:
  "(map_option node_id (selectedNode s) \<noteq> Some (node_id d) \<longrightarrow>
      highlightedNodes (node_click d s) = [node_id d] \<and>
      selectedNode (node_click d s) = Some d \<and>
      highlightedNodes (node_click d (node_click d s)) = [] \<and>
      selectedNode (node_click d (node_click d s)) = None) \<and>
   (map_option node_id (selectedNode s) = Some (node_id d) \<longrightarrow>
      highlightedNodes (node_click d s) = [] \<and>
      selectedNode (node_click d s) = None \<and>
      highlightedNodes (node_click d (node_click d s)) = [node_id d] \<and>
      selectedNode (node_click d (node_click d s)) = Some d) \<and>
   highlightedNodes (handleNodeSelect (Some d) (handleNodeSelect (Some d) s)) = [node_id d]"
proof (intro conjI impI)
  assume u: "map_option node_id (selectedNode s) \<noteq> Some (node_id d)"
  let ?s1 = "s\<lparr>selectedNode := Some d, highlightedNodes := [node_id d]\<rparr>"
  have first: "node_click d s = ?s1"
    using u by (rule node_click_unselected)
  have "map_option node_id (selectedNode ?s1) = Some (node_id d)"
    by simp
  then have second: "node_click d ?s1 = ?s1\<lparr>selectedNode := None, highlightedNodes := []\<rparr>"
    by (rule node_click_selected)
  show "highlightedNodes (node_click d s) = [node_id d]"
    and "selectedNode (node_click d s) = Some d"
    unfolding first by simp_all
  show "highlightedNodes (node_click d (node_click d s)) = []"
    and "selectedNode (node_click d (node_click d s)) = None"
    unfolding first second by simp_all
next
  assume sel: "map_option node_id (selectedNode s) = Some (node_id d)"
  let ?s1 = "s\<lparr>selectedNode := None, highlightedNodes := []\<rparr>"
  have first: "node_click d s = ?s1"
    using sel by (rule node_click_selected)
  have "map_option node_id (selectedNode ?s1) \<noteq> Some (node_id d)"
    by simp
  then have second:
    "node_click d ?s1 = ?s1\<lparr>selectedNode := Some d, highlightedNodes := [node_id d]\<rparr>"
    by (rule node_click_unselected)
  show "highlightedNodes (node_click d s) = []"
    and "selectedNode (node_click d s) = None"
    unfolding first by simp_all
  show "highlightedNodes (node_click d (node_click d s)) = [node_id d]"
    and "selectedNode (node_click d (node_click d s)) = Some d"
    unfolding first second by simp_all
next
  show "highlightedNodes (handleNodeSelect (Some d) (handleNodeSelect (Some d) s)) = [node_id d]"
    by (simp add: handleNodeSelect_def)
qed

theorem select_twice_toggles_witness:
  "map_option node_id (selectedNode \<lparr>selectedNode = None, highlightedNodes = []\<rparr>)
     \<noteq> Some (node_id node_rag) \<and>
   highlightedNodes (node_click node_rag \<lparr>selectedNode = None, highlightedNodes = []\<rparr>)
     = [''rag''] \<and>
   highlightedNodes (node_click node_rag
      (node_click node_rag \<lparr>selectedNode = None, highlightedNodes = []\<rparr>)) = [] \<and>
   map_option node_id (selectedNode \<lparr>selectedNode = Some node_rag, highlightedNodes = []\<rparr>)
     = Some (node_id node_rag) \<and>
   highlightedNodes (node_click node_rag
      (node_click node_rag \<lparr>selectedNode = Some node_rag, highlightedNodes = []\<rparr>)) = [''rag'']"
proof -
  let ?s0 = "\<lparr>selectedNode = None, highlightedNodes = []\<rparr>"
  let ?s1 = "\<lparr>selectedNode = Some node_rag, highlightedNodes = []\<rparr>"
  have h0: "map_option node_id (selectedNode ?s0) \<noteq> Some (node_id node_rag)"
    by simp
  have h1: "map_option node_id (selectedNode ?s1) = Some (node_id node_rag)"
    by simp
  have rag: "node_id node_rag = ''rag''"
    by (simp add: node_rag_def)
  note unselected = select_twice_toggles [of ?s0 node_rag, THEN conjunct1, rule_format, OF h0]
  note selected =
    select_twice_toggles [of ?s1 node_rag, THEN conjunct2, THEN conjunct1, rule_format, OF h1]
  have a: "highlightedNodes (node_click node_rag ?s0) = [''rag'']"
    using unselected [THEN conjunct1] unfolding rag .
  have b: "highlightedNodes (node_click node_rag (node_click node_rag ?s0)) = []"
    using unselected [THEN conjunct2, THEN conjunct2, THEN conjunct1] .
  have c: "highlightedNodes (node_click node_rag (node_click node_rag ?s1)) = [''rag'']"
    using selected [THEN conjunct2, THEN conjunct2, THEN conjunct1] unfolding rag .
  show ?thesis
    by (intro conjI h0 a b h1 c)
qed

text \<open>
  C9, as it is worded, fails. After one click on the node \<open>rag\<close> the node is selected;
  a select of \<open>rag\<close> followed by a select of \<open>rag\<close> again then leaves \<open>rag\<close>
  highlighted, not the empty set.
\<close>

theorem select_twice_counterexample:
  "highlightedNodes
     (node_click node_rag
        (node_click node_rag
           (node_click node_rag \<lparr>selectedNode = None, highlightedNodes = []\<rparr>)))
     = [''rag'']"
  by (simp add: node_click_def handleNodeSelect_def node_rag_def)

section \<open>Highlighting of relationships\<close>

lemma resolve_endpoint_is_node:
  "resolve_endpoint ns e = Inr e' \<Longrightarrow> \<exists>n. e' = EndNode n"
  by (cases e) (auto split: option.splits)

lemma initialized_links_not_highlighted:
  "forceLink_initialize ns ls = Inr ls' \<Longrightarrow> d \<in> set ls' \<Longrightarrow> \<not> link_highlighted highlighted d"
proof (induction ls arbitrary: ls')
  case Nil
  then show ?case by simp
next
  case (Cons l ls)
  from Cons.prems(1) obtain s t rest where
    s: "resolve_endpoint ns (rel_source l) = Inr s" and
    t: "resolve_endpoint ns (rel_target l) = Inr t" and
    rest: "forceLink_initialize ns ls = Inr rest" and
    ls': "ls' = l\<lparr>rel_source := s, rel_target := t\<rparr> # rest"
    by (auto split: sum.splits)
  from s obtain n where "s = EndNode n"
    using resolve_endpoint_is_node by blast
  then have "\<not> link_highlighted highlighted (l\<lparr>rel_source := s, rel_target := t\<rparr>)"
    by (simp add: link_highlighted_def highlighted_includes_def)
  with Cons.IH [OF rest] Cons.prems(2) ls' show ?case
    by auto
qed

text \<open>
  C5. The stroke test is written as the claim says, both endpoints among the highlighted
  ids, and on a relationship whose endpoints are still ids it holds for the edge from
  \<open>graphrag\<close> to \<open>rag\<close> under the highlight set \<open>{graphrag, rag}\<close>. But the lines
  are drawn after the link force has replaced the endpoints by node objects, which the
  array of ids never contains: in the drawing no edge is highlighted, this one included.
\<close>

theorem edge_highlight_failing_input:
  "link_highlighted [''graphrag'', ''rag''] (hd (relationships scenario_store)) \<and>
   draw_links [''graphrag'', ''rag''] scenario_store =
     Inr [(''r3'', ''#cbd5e1''), (''r4'', ''#cbd5e1'')]"
  by (simp add: draw_links_def scenario_store_def find_node_def link_stroke_def
        link_highlighted_def highlighted_includes_def node_graphrag_def node_rag_def
        node_neo4j_def)
section \<open>Pinned nodes and settlement of the layout\<close>

lemma length_tick: "length (layout_nodes (tick f L)) = length (layout_nodes L)"
  by (simp add: tick_def Let_def)

lemma tick_node:
  "i < length (layout_nodes L) \<Longrightarrow>
   layout_nodes (tick f L) ! i =
     integrate (alpha L * (1 - decayRate)) (f (layout_nodes L) i) (layout_nodes L ! i)"
  by (simp add: tick_def Let_def)

lemma integrate_pinned:
  assumes "node_fx n = Some px" and "node_fy n = Some py"
  shows "node_x (integrate a fo n) = px" "node_y (integrate a fo n) = py"
    "node_vx (integrate a fo n) = 0" "node_vy (integrate a fo n) = 0"
    "node_fx (integrate a fo n) = Some px" "node_fy (integrate a fo n) = Some py"
  using assms by (simp_all add: integrate_def Let_def)

text \<open>
  C7. While a node is pinned, after every tick, whatever the forces, its position is the
  pin, its velocity is zero and it is still pinned, so the same holds after any number of
  ticks, one at least, made before the pin is released.
\<close>

theorem pinned_node_stays_at_pin:
  assumes "i < length (layout_nodes L)"
    and "node_fx (layout_nodes L ! i) = Some px"
    and "node_fy (layout_nodes L ! i) = Some py"
    and "0 < k"
  shows "i < length (layout_nodes ((tick f ^^ k) L)) \<and>
         node_x (layout_nodes ((tick f ^^ k) L) ! i) = px \<and>
         node_y (layout_nodes ((tick f ^^ k) L) ! i) = py \<and>
         node_vx (layout_nodes ((tick f ^^ k) L) ! i) = 0 \<and>
         node_vy (layout_nodes ((tick f ^^ k) L) ! i) = 0 \<and>
         node_fx (layout_nodes ((tick f ^^ k) L) ! i) = Some px \<and>
         node_fy (layout_nodes ((tick f ^^ k) L) ! i) = Some py"
  using assms
proof (induction k arbitrary: L)
  case 0
  then show ?case by simp
next
  case (Suc k)
  let ?L1 = "tick f L"
  have len: "i < length (layout_nodes ?L1)"
    using Suc.prems(1) by (simp add: length_tick)
  have n1: "layout_nodes ?L1 ! i =
      integrate (alpha L * (1 - decayRate)) (f (layout_nodes L) i) (layout_nodes L ! i)"
    using Suc.prems(1) by (rule tick_node)
  note pin = integrate_pinned [OF Suc.prems(2) Suc.prems(3)]
  have fx1: "node_fx (layout_nodes ?L1 ! i) = Some px"
    and fy1: "node_fy (layout_nodes ?L1 ! i) = Some py"
    unfolding n1 by (rule pin)+
  have unfold: "(tick f ^^ Suc k) L = (tick f ^^ k) ?L1"
    by (simp add: funpow_swap1)
  show ?case
  proof (cases "k = 0")
    case True
    then show ?thesis
      using len unfolding n1 funpow.simps True by (simp add: n1 pin)
  next
    case False
    then have "0 < k" by simp
    from Suc.IH [OF len fx1 fy1 this] show ?thesis
      unfolding unfold .
  qed
qed


theorem pinned_node_stays_at_pin_witness:
  "0 < length (layout_nodes held_layout) \<and>
   node_fx (layout_nodes held_layout ! 0) = Some 10 \<and>
   node_fy (layout_nodes held_layout ! 0) = Some 20 \<and>
   node_x (layout_nodes ((tick constant_force ^^ 2) held_layout) ! 0) = 10 \<and>
   node_y (layout_nodes ((tick constant_force ^^ 2) held_layout) ! 0) = 20"
proof -
  have h1: "0 < length (layout_nodes held_layout)"
    by (simp add: held_layout_def)
  have h2: "node_fx (layout_nodes held_layout ! 0) = Some 10"
    by (simp add: held_layout_def dragged_def)
  have h3: "node_fy (layout_nodes held_layout ! 0) = Some 20"
    by (simp add: held_layout_def dragged_def)
  have h4: "(0::nat) < 2"
    by simp
  from pinned_node_stays_at_pin [OF h1 h2 h3 h4, of constant_force]
  have "node_x (layout_nodes ((tick constant_force ^^ 2) held_layout) ! 0) = 10"
    and "node_y (layout_nodes ((tick constant_force ^^ 2) held_layout) ! 0) = 20"
    by blast+
  with h1 h2 h3 show ?thesis
    by blast
qed

lemma alpha_funpow: "alpha ((tick f ^^ k) L) = alpha L * (1 - decayRate) ^ k"
  by (induction k) (simp_all add: tick_def Let_def)

lemma run_to_settlement_unroll:
  "(\<forall>j<k. \<not> alpha ((tick f ^^ j) L) < alphaMin) \<Longrightarrow>
   run_to_settlement f L n = run_to_settlement f ((tick f ^^ k) L) (n + k)"
proof (induction k arbitrary: L n)
  case 0
  show ?case by simp
next
  case (Suc k)
  from Suc.prems have "\<not> alpha ((tick f ^^ 0) L) < alphaMin"
    by blast
  then have first: "run_to_settlement f L n = run_to_settlement f (tick f L) (Suc n)"
    by (subst run_to_settlement.simps) simp
  have "\<forall>j<k. \<not> alpha ((tick f ^^ j) (tick f L)) < alphaMin"
  proof (intro allI impI)
    fix j assume "j < k"
    then have "\<not> alpha ((tick f ^^ Suc j) L) < alphaMin"
      using Suc.prems by (meson Suc_less_eq)
    then show "\<not> alpha ((tick f ^^ j) (tick f L)) < alphaMin"
      by (simp add: funpow_swap1)
  qed
  from Suc.IH [OF this]
  have "run_to_settlement f (tick f L) (Suc n)
          = run_to_settlement f ((tick f ^^ k) (tick f L)) (Suc n + k)" .
  with first show ?case
    by (simp add: funpow_swap1)
qed

lemma decay_ten: "(1 - decayRate) ^ 10 \<le> 0.7940258"
  by (simp add: decayRate_def power_divide)

lemma decay_three_hundred: "(1 - decayRate) ^ 300 < alphaMin"
proof -
  have nonneg: "0 \<le> 1 - decayRate"
    by (simp add: decayRate_def)
  have "(1 - decayRate) ^ 100 = ((1 - decayRate) ^ 10) ^ 10"
    by (simp add: power_mult [symmetric])
  also have "\<dots> \<le> (0.7940258 :: real) ^ 10"
    by (rule power_mono [OF decay_ten]) (simp add: nonneg)
  also have "\<dots> \<le> 0.099619909"
    by (simp add: power_divide)
  finally have hundred: "(1 - decayRate) ^ 100 \<le> 0.099619909" .
  have "(1 - decayRate) ^ 300 = ((1 - decayRate) ^ 100) ^ 3"
    by (simp add: power_mult [symmetric])
  also have "\<dots> \<le> (0.099619909 :: real) ^ 3"
    by (rule power_mono [OF hundred]) (simp add: nonneg)
  also have "\<dots> < alphaMin"
    by (simp add: alphaMin_def power_divide)
  finally show ?thesis .
qed

text \<open>
  C8. From \<open>alpha = 1\<close> the run to settlement returns, whatever the nodes and the
  forces: after at most 400 ticks (300 are enough) \<open>alpha\<close> is below the threshold.
\<close>

theorem layout_settles_within_400_ticks:
  assumes "alpha L = 1"
  shows "\<exists>n L'. run_to_settlement f L 0 = Some (n, L') \<and> n \<le> 400 \<and> alpha L' < alphaMin"
proof -
  define settled where "settled k \<longleftrightarrow> alpha ((tick f ^^ k) L) < alphaMin" for k
  have "settled 300"
    using assms decay_three_hundred by (simp add: settled_def alpha_funpow)
  define k where "k = (LEAST k. settled k)"
  have k_settled: "settled k"
    unfolding k_def using \<open>settled 300\<close> by (rule LeastI)
  have k_le: "k \<le> 300"
    unfolding k_def using \<open>settled 300\<close> by (rule Least_le)
  have before: "\<forall>j<k. \<not> alpha ((tick f ^^ j) L) < alphaMin"
    using not_less_Least [of _ settled] unfolding k_def settled_def by blast
  have "run_to_settlement f L 0 = run_to_settlement f ((tick f ^^ k) L) (0 + k)"
    using before by (rule run_to_settlement_unroll)
  also have "\<dots> = Some (k, (tick f ^^ k) L)"
    using k_settled unfolding settled_def by (subst run_to_settlement.simps) simp
  finally have "run_to_settlement f L 0 = Some (k, (tick f ^^ k) L)" .
  with k_settled k_le show ?thesis
    unfolding settled_def by auto
qed

theorem layout_settles_within_400_ticks_witness:
  "alpha held_layout = 1 \<and>
   (\<exists>n L'. run_to_settlement constant_force held_layout 0 = Some (n, L') \<and> n \<le> 400 \<and>
      alpha L' < alphaMin)"
proof -
  have h: "alpha held_layout = 1"
    by (simp add: held_layout_def)
  show ?thesis
    by (rule conjI [OF h layout_settles_within_400_ticks [OF h]])
qed

section \<open>The timer that clears the highlights\<close>






section \<open>Sessions, run symbolically\<close>

lemma filter_remove_nth_other:
  assumes "k < length ps" and "\<not> P (ps ! k)"
  shows "filter P (take k ps @ drop (Suc k) ps) = filter P ps"
proof -
  have "filter P ps = filter P (take k ps @ ps ! k # drop (Suc k) ps)"
    using assms(1) by (metis id_take_nth_drop)
  with assms(2) show ?thesis by simp
qed

lemma filter_remove_nth_single:
  assumes "k < length ps" and "P (ps ! k)" and "filter P ps = [x]"
  shows "ps ! k = x" and "filter P (take k ps @ drop (Suc k) ps) = []"
proof -
  have "filter P ps = filter P (take k ps @ ps ! k # drop (Suc k) ps)"
    using assms(1) by (metis id_take_nth_drop)
  with assms(2,3)
  have "[x] = filter P (take k ps) @ ps ! k # filter P (drop (Suc k) ps)"
    by simp
  then have "filter P (take k ps) = [] \<and> ps ! k = x \<and> filter P (drop (Suc k) ps) = []"
    by (cases "filter P (take k ps)") auto
  then show "ps ! k = x" and "filter P (take k ps @ drop (Suc k) ps) = []"
    by simp_all
qed

lemma streamed_prefix_Suc:
  "streamed_prefix words (Suc i) = streamed_prefix words i @ stream_chunk words i"
  by (simp add: streamed_prefix_def)

lemma streamed_prefix_all: "streamed_prefix words (length words) = join_space words"
  using concat_chunks_from [of "[]" words] by (simp add: streamed_prefix_def)

lemma retrieval_short_tokens:
  assumes "\<forall>t\<in>set (split_space (toLowerCase q)). length t \<le> 3"
  shows "simulateGraphRetrieval q g = []"
proof -
  have "\<not> node_matches (split_space (toLowerCase q)) m" for m
    using assms by (auto simp: node_matches_iff)
  then have "matching_nodes q g = []"
    by (simp add: matching_nodes_def)
  then show ?thesis
    by (simp add: simulateGraphRetrieval_def)
qed

lemma answer_hi:
  "matchingQuery ''hi'' = None"
  "simulateGraphRetrieval ''hi'' g = []"
  "length (split_space (no_information_found ''hi'')) = 37"
proof -
  show "matchingQuery ''hi'' = None" by code_simp
  have "split_space (toLowerCase ''hi'') = [''hi'']" by code_simp
  then show "simulateGraphRetrieval ''hi'' g = []"
    by (intro retrieval_short_tokens) simp
  show "length (split_space (no_information_found ''hi'')) = 37" by code_simp
qed

lemma answer_yo:
  "matchingQuery ''yo'' = None"
  "simulateGraphRetrieval ''yo'' g = []"
  "length (split_space (no_information_found ''yo'')) = 37"
proof -
  show "matchingQuery ''yo'' = None" by code_simp
  have "split_space (toLowerCase ''yo'') = [''yo'']" by code_simp
  then show "simulateGraphRetrieval ''yo'' g = []"
    by (intro retrieval_short_tokens) simp
  show "length (split_space (no_information_found ''yo'')) = 37" by code_simp
qed

lemma generateResponse_nothing_found:
  "generateResponse q [] None = no_information_found q"
  by (simp add: generateResponse_def generic_response_def)

lemma streamed_first: "stream_chunk ws 0 = streamed_prefix ws (Suc 0)"
  by (simp add: streamed_prefix_def)

lemma streamed_next: "streamed_prefix ws i @ stream_chunk ws i = streamed_prefix ws (Suc i)"
  by (simp add: streamed_prefix_Suc)

lemma streamed_whole: "n = length (split_space s) \<Longrightarrow> streamed_prefix (split_space s) n = s"
  using streamed_prefix_all [of "split_space s"] by (simp add: join_split_space)

lemmas session_simps =
  step_def handleSendMessage_def Let_def set_content_def end_streaming_def
  initial_world_def generateResponse_nothing_found
  streamed_first streamed_next streamed_whole

lemma answer_graphrag:
  "matchingQuery ''graphrag'' = None"
  "simulateGraphRetrieval ''graphrag'' scenario_store = [node_graphrag]"
  "length (split_space (generateResponse ''graphrag'' [node_graphrag] None)) = 34"
  by code_simp+


section \<open>Emissions are not abandoned\<close>

lemma emittingE:
  assumes "emitting mid words w"
  obtains due i where "i < length words"
    and "filter (chunk_of mid) (pending w) = [(due, NextChunk mid words i (streamed_prefix words i))]"
proof -
  from assms obtain p where p: "filter (chunk_of mid) (pending w) = [p]"
    by (auto simp: emitting_def split: list.splits)
  then have "p \<in> set (filter (chunk_of mid) (pending w))" by simp
  then have c: "chunk_of mid p" by simp
  from assms p obtain m i sc where s: "snd p = NextChunk m words i sc"
    and i: "i < length words" and sc: "sc = streamed_prefix words i"
    by (auto simp: emitting_def split: continuation.splits)
  from c s have "m = mid" by (simp add: chunk_of_def)
  with s sc have "p = (fst p, NextChunk mid words i (streamed_prefix words i))"
    by (cases p) simp
  with p i that show ?thesis by metis
qed

lemma emittingI:
  assumes "filter (chunk_of mid) (pending w) = [(due, NextChunk mid words i (streamed_prefix words i))]"
    and "i < length words"
  shows "emitting mid words w"
  using assms by (simp add: emitting_def)

lemma set_content_other:
  "list_all (\<lambda>m. msg_id m = mid \<longrightarrow> msg_content m = text) ms \<Longrightarrow> mid' \<noteq> mid \<Longrightarrow>
   list_all (\<lambda>m. msg_id m = mid \<longrightarrow> msg_content m = text) (set_content mid' text' ms)"
  by (induction ms) (simp_all add: set_content_def)

lemma end_streaming_content:
  "list_all (\<lambda>m. msg_id m = mid \<longrightarrow> msg_content m = text) ms \<Longrightarrow>
   list_all (\<lambda>m. msg_id m = mid \<longrightarrow> msg_content m = text) (end_streaming mid' ms)"
  by (induction ms) (simp_all add: end_streaming_def)

lemma set_content_same:
  "list_all (\<lambda>m. msg_id m = mid \<longrightarrow> msg_content m = text) (set_content mid text ms)"
  by (induction ms) (simp_all add: set_content_def)

lemma ids_set_content: "map msg_id (set_content mid text ms) = map msg_id ms"
  by (induction ms) (simp_all add: set_content_def)

lemma ids_end_streaming: "map msg_id (end_streaming mid ms) = map msg_id ms"
  by (induction ms) (simp_all add: end_streaming_def)

lemma emission_frame:
  assumes "emitting mid words w \<or> emitted mid words w"
    and "filter (chunk_of mid) (pending w') = filter (chunk_of mid) (pending w)"
    and "list_all (\<lambda>m. msg_id m = mid \<longrightarrow> msg_content m = join_space words) (messages w) \<Longrightarrow>
         list_all (\<lambda>m. msg_id m = mid \<longrightarrow> msg_content m = join_space words) (messages w')"
  shows "emitting mid words w' \<or> emitted mid words w'"
  using assms by (auto simp: emitting_def emitted_def)

lemma fire_keeps_emission:
  assumes inv: "emitting mid words w \<or> emitted mid words w"
    and mid: "mid = AssistantMessage t0" and t0: "t0 < t"
    and k: "k < length (pending w)"
  shows "emitting mid words
           (resume g t (snd (pending w ! k))
              (w\<lparr>now := t, pending := take k (pending w) @ drop (Suc k) (pending w)\<rparr>)) \<or>
         emitted mid words
           (resume g t (snd (pending w ! k))
              (w\<lparr>now := t, pending := take k (pending w) @ drop (Suc k) (pending w)\<rparr>))"
    (is "emitting mid words ?w' \<or> emitted mid words ?w'")
proof -
  let ?rest = "take k (pending w) @ drop (Suc k) (pending w)"
  let ?Q = "\<lambda>m. msg_id m = mid \<longrightarrow> msg_content m = join_space words"
  show ?thesis
  proof (cases "chunk_of mid (pending w ! k)")
    case False
    then have rest: "filter (chunk_of mid) ?rest = filter (chunk_of mid) (pending w)"
      using k by (intro filter_remove_nth_other)
    show ?thesis
    proof (cases "snd (pending w ! k)")
      case (AfterPlanning content)
      then show ?thesis
        using rest by (intro emission_frame [OF inv]) (simp_all add: chunk_of_def)
    next
      case (AfterRetrieval content matching)
      then show ?thesis
        using rest mid t0
        by (intro emission_frame [OF inv]) (simp_all add: chunk_of_def Let_def)
    next
      case ClearHighlights
      then show ?thesis
        using rest by (intro emission_frame [OF inv]) (simp_all add: chunk_of_def)
    next
      case (NextChunk m ws i sc)
      with False have other: "m \<noteq> mid"
        by (simp add: chunk_of_def)
      show ?thesis
        using rest other NextChunk
        by (intro emission_frame [OF inv])
          (simp_all add: chunk_of_def Let_def set_content_other end_streaming_content)
    qed
  next
    case True
    have "pending w ! k \<in> set (filter (chunk_of mid) (pending w))"
      using True k by simp
    then have "filter (chunk_of mid) (pending w) \<noteq> []"
      by (metis empty_iff list.set(1))
    with inv have "emitting mid words w"
      by (auto simp: emitted_def)
    then obtain due i where i: "i < length words"
      and single: "filter (chunk_of mid) (pending w)
                     = [(due, NextChunk mid words i (streamed_prefix words i))]"
      by (rule emittingE)
    from filter_remove_nth_single [OF k True single]
    have at_k: "pending w ! k = (due, NextChunk mid words i (streamed_prefix words i))"
      and rest: "filter (chunk_of mid) ?rest = []"
      by simp_all
    show ?thesis
    proof (cases "Suc i < length words")
      case True
      have "filter (chunk_of mid) (pending ?w')
              = [(t + 30, NextChunk mid words (Suc i) (streamed_prefix words (Suc i)))]"
        using True rest by (simp add: at_k Let_def chunk_of_def streamed_prefix_Suc)
      then have "emitting mid words ?w'"
        using True by (rule emittingI)
      then show ?thesis ..
    next
      case False
      with i have last: "Suc i = length words" by simp
      have whole: "streamed_prefix words i @ stream_chunk words i = join_space words"
        using streamed_prefix_all [of words] last streamed_prefix_Suc [of words i] by simp
      have "filter (chunk_of mid) (pending ?w') = []"
        using False rest by (simp add: at_k Let_def chunk_of_def)
      moreover have "list_all ?Q (messages ?w')"
        using False
        by (simp add: at_k Let_def whole end_streaming_content set_content_same)
      ultimately have "emitted mid words ?w'"
        by (simp add: emitted_def)
      then show ?thesis ..
    qed
  qed
qed

lemma step_keeps_emission:
  assumes inv: "emitting mid words w \<or> emitted mid words w"
    and mid: "mid = AssistantMessage t0" and t0: "t0 < now w"
    and st: "step g e w = Some w'"
  shows "(emitting mid words w' \<or> emitted mid words w') \<and> t0 < now w'"
proof -
  let ?w = "w\<lparr>now := event_time e\<rparr>"
  from st have time: "now w \<le> event_time e" and r: "react g e ?w = Some w'"
    by (simp_all add: step_def split: if_splits)
  have inv': "emitting mid words ?w \<or> emitted mid words ?w"
    using inv by (simp add: emitting_def emitted_def)
  have now': "now w' = event_time e"
  proof (cases e)
    case (Fire t k)
    with r show ?thesis
      by (cases "snd (pending w ! k)") (auto simp: Let_def split: if_splits)
  qed (use r in \<open>auto simp: handleSendMessage_def node_click_def background_click_def
        handleNodeSelect_def handleSourceClick_def split: option.splits\<close>)
  have "emitting mid words w' \<or> emitted mid words w'"
  proof (cases e)
    case (Submit t content)
    with r have w': "w' = handleSendMessage t content ?w" by simp
    show ?thesis
      unfolding w' using mid
      by (intro emission_frame [OF inv']) (simp_all add: handleSendMessage_def chunk_of_def)
  next
    case (NodeClick t d)
    with r have w': "w' = node_click d ?w" by simp
    show ?thesis
      unfolding w'
      by (intro emission_frame [OF inv'])
        (simp_all add: node_click_def handleNodeSelect_def split: option.splits)
  next
    case (BackgroundClick t)
    with r have w': "w' = background_click ?w" by simp
    show ?thesis
      unfolding w'
      by (intro emission_frame [OF inv']) (simp_all add: background_click_def handleNodeSelect_def)
  next
    case (SourceClick t d)
    with r have w': "w' = handleSourceClick d ?w" by simp
    show ?thesis
      unfolding w'
      by (intro emission_frame [OF inv']) (simp_all add: handleSourceClick_def)
  next
    case (CloseDetails t)
    with r have w': "w' = ?w\<lparr>selectedNode := None\<rparr>" by simp
    show ?thesis
      unfolding w' by (intro emission_frame [OF inv']) simp_all
  next
    case (Fire t k)
    with r have k: "k < length (pending w)"
      and w': "w' = resume g t (snd (pending w ! k))
                  (w\<lparr>now := t, pending := take k (pending w) @ drop (Suc k) (pending w)\<rparr>)"
      by (auto split: if_splits)
    from t0 time Fire have "t0 < t" by simp
    from fire_keeps_emission [OF inv mid this k] show ?thesis
      unfolding w' .
  qed
  moreover have "t0 < now w'"
    using t0 time now' by simp
  ultimately show ?thesis ..
qed

lemma run_keeps_emission:
  assumes "emitting mid words w \<or> emitted mid words w"
    and "mid = AssistantMessage t0" and "t0 < now w"
    and "run g evs w = Some w'"
  shows "emitting mid words w' \<or> emitted mid words w'"
  using assms
proof (induction evs arbitrary: w)
  case Nil
  then show ?case by simp
next
  case (Cons e es)
  from Cons.prems(4) obtain w1 where s: "step g e w = Some w1" and r: "run g es w1 = Some w'"
    by (auto split: option.splits)
  from step_keeps_emission [OF Cons.prems(1,2,3) s]
  have "emitting mid words w1 \<or> emitted mid words w1" and "t0 < now w1"
    by simp_all
  from Cons.IH [OF this(1) Cons.prems(2) this(2) r] show ?case .
qed

lemma step_keeps_ids:
  assumes "step g e w = Some w'"
  shows "set (map msg_id (messages w)) \<subseteq> set (map msg_id (messages w'))"
proof -
  let ?w = "w\<lparr>now := event_time e\<rparr>"
  from assms have r: "react g e ?w = Some w'"
    by (simp add: step_def split: if_splits)
  show ?thesis
  proof (cases e)
    case (Fire t k)
    with r have w': "w' = resume g t (snd (pending w ! k))
                  (w\<lparr>now := t, pending := take k (pending w) @ drop (Suc k) (pending w)\<rparr>)"
      by (auto split: if_splits)
    show ?thesis
      unfolding w'
      by (cases "snd (pending w ! k)")
        (auto simp: Let_def ids_set_content ids_end_streaming simp del: set_map)
  qed (use r in \<open>auto simp: handleSendMessage_def node_click_def background_click_def
        handleNodeSelect_def handleSourceClick_def split: option.splits\<close>)
qed

lemma run_keeps_ids:
  "run g evs w = Some w' \<Longrightarrow> set (map msg_id (messages w)) \<subseteq> set (map msg_id (messages w'))"
proof (induction evs arbitrary: w)
  case Nil
  then show ?case by simp
next
  case (Cons e es)
  from Cons.prems obtain w1 where s: "step g e w = Some w1" and r: "run g es w1 = Some w'"
    by (auto split: option.splits)
  from step_keeps_ids [OF s] Cons.IH [OF r] show ?case
    by blast
qed

text \<open>
  C4, as the code has it. An emission that is going on is never abandoned: whatever
  happens next, further texts submitted included, the message is still there and either
  the emission is still going on, with its next chunk set and the chunks so far kept, or
  it is complete and the message holds the whole answer.
\<close>

theorem emission_never_abandoned:
  assumes "emitting (AssistantMessage t0) words w"
    and "t0 < now w"
    and "AssistantMessage t0 \<in> set (map msg_id (messages w))"
    and "run g evs w = Some w'"
  shows "AssistantMessage t0 \<in> set (map msg_id (messages w')) \<and>
         (emitting (AssistantMessage t0) words w' \<or> emitted (AssistantMessage t0) words w')"
proof -
  from assms(1) have "emitting (AssistantMessage t0) words w \<or> emitted (AssistantMessage t0) words w" ..
  from run_keeps_emission [OF this refl assms(2,4)]
  have "emitting (AssistantMessage t0) words w' \<or> emitted (AssistantMessage t0) words w'" .
  moreover have "AssistantMessage t0 \<in> set (map msg_id (messages w'))"
    using run_keeps_ids [OF assms(4)] assms(3) by blast
  ultimately show ?thesis by blast
qed

lemma mid_emission_reached:
  "run scenario_store (take 6 two_queries_trace) initial_world = Some mid_emission_world"
  by code_simp

theorem emission_never_abandoned_witness:
  "emitting (AssistantMessage 1300) (split_space (no_information_found ''hi'')) mid_emission_world \<and>
   1300 < now mid_emission_world \<and>
   AssistantMessage 1300 \<in> set (map msg_id (messages mid_emission_world)) \<and>
   run scenario_store [Submit 1405 ''yo''] mid_emission_world
     = Some (handleSendMessage 1405 ''yo'' (mid_emission_world\<lparr>now := 1405\<rparr>)) \<and>
   AssistantMessage 1300 \<in> set (map msg_id (messages
       (handleSendMessage 1405 ''yo'' (mid_emission_world\<lparr>now := 1405\<rparr>)))) \<and>
   emitting (AssistantMessage 1300) (split_space (no_information_found ''hi''))
     (handleSendMessage 1405 ''yo'' (mid_emission_world\<lparr>now := 1405\<rparr>))"
proof -
  let ?ws = "split_space (no_information_found ''hi'')"
  let ?w' = "handleSendMessage 1405 ''yo'' (mid_emission_world\<lparr>now := 1405\<rparr>)"
  have len: "length ?ws = 37"
    by code_simp
  have h1: "emitting (AssistantMessage 1300) ?ws mid_emission_world"
    by (simp add: emitting_def mid_emission_world_def chunk_of_def len)
  have h2: "1300 < now mid_emission_world"
    by (simp add: mid_emission_world_def)
  have h3: "AssistantMessage 1300 \<in> set (map msg_id (messages mid_emission_world))"
    by (simp add: mid_emission_world_def)
  have h4: "run scenario_store [Submit 1405 ''yo''] mid_emission_world = Some ?w'"
    by (simp add: step_def mid_emission_world_def)
  from emission_never_abandoned [OF h1 h2 h3 h4]
  have c: "AssistantMessage 1300 \<in> set (map msg_id (messages ?w'))"
    and d: "emitting (AssistantMessage 1300) ?ws ?w' \<or> emitted (AssistantMessage 1300) ?ws ?w'"
    by blast+
  have "\<not> emitted (AssistantMessage 1300) ?ws ?w'"
    by (simp add: emitted_def handleSendMessage_def mid_emission_world_def chunk_of_def)
  with d have e: "emitting (AssistantMessage 1300) ?ws ?w'"
    by blast
  from h1 h2 h3 h4 c e show ?thesis
    by blast
qed

text \<open>
  C4, as it is worded, fails. In the session of the two texts the second is submitted
  during the emission of the first answer; the first emission goes on, and in the end
  the messages hold both answers in full, the first as well as the second.
\<close>

theorem both_answers_emitted_counterexample:
  "map_option contents (run scenario_store two_queries_trace initial_world)
     = Some [''hi'', no_information_found ''hi'', ''yo'', no_information_found ''yo'']"
  by (simp add: two_queries_trace_def contents_def session_simps answer_hi answer_yo)


section \<open>Canned and generic answers\<close>

lemma naturals:
  "natural sampleQuery1 = ''How does GraphRAG improve AI accuracy?''"
  "natural sampleQuery2 = ''What companies use Neo4j and for what purpose?''"
  "natural sampleQuery3 = ''How is GraphRAG different from regular RAG?''"
  "natural sampleQuery4 = ''What are the main challenges facing GenAI?''"
  by (simp_all add: sampleQuery1_def sampleQuery2_def sampleQuery3_def sampleQuery4_def)

lemma query_prefixes:
  "query_prefix sampleQuery1 = ''how does graphrag''"
  "query_prefix sampleQuery2 = ''what companies use''"
  "query_prefix sampleQuery3 = ''how is graphrag''"
  "query_prefix sampleQuery4 = ''what are the''"
  unfolding query_prefix_def naturals by code_simp+

lemma find_response:
  "find (\<lambda>entry. includes_str (natural sampleQuery1) (fst entry)) responses
     = Some (natural sampleQuery1, response1)"
  "find (\<lambda>entry. includes_str (natural sampleQuery2) (fst entry)) responses
     = Some (natural sampleQuery2, response2)"
  "find (\<lambda>entry. includes_str (natural sampleQuery3) (fst entry)) responses
     = Some (natural sampleQuery3, response3)"
  "find (\<lambda>entry. includes_str (natural sampleQuery4) (fst entry)) responses
     = Some (natural sampleQuery4, response4)"
  unfolding naturals responses_def by simp_all

lemma map_of_responses:
  "map_of responses (natural sampleQuery1) = Some response1"
  "map_of responses (natural sampleQuery2) = Some response2"
  "map_of responses (natural sampleQuery3) = Some response3"
  "map_of responses (natural sampleQuery4) = Some response4"
  unfolding naturals responses_def by simp_all


lemma matchingQuery_Some:
  assumes "matchingQuery content = Some q"
  shows "q \<in> set sampleQueries" and "includes_str (toLowerCase content) (query_prefix q)"
proof -
  from assms obtain i where "i < length sampleQueries" and "q = sampleQueries ! i"
    and "includes_str (toLowerCase content) (query_prefix (sampleQueries ! i))"
    unfolding matchingQuery_def find_Some_iff by blast
  then show "q \<in> set sampleQueries" and "includes_str (toLowerCase content) (query_prefix q)"
    by auto
qed

lemma matchingQuery_None:
  "matchingQuery content = None \<longleftrightarrow>
     \<not> (\<exists>q\<in>set sampleQueries. sublist (query_prefix q) (toLowerCase content))"
  by (auto simp: matchingQuery_def find_None_iff includes_str_iff_sublist)

lemma generateResponse_canned:
  assumes "q \<in> set sampleQueries"
  shows "map_of responses (natural q) = Some (generateResponse content sources (Some q))"
proof -
  from assms consider "q = sampleQuery1" | "q = sampleQuery2" | "q = sampleQuery3" | "q = sampleQuery4"
    by (auto simp: sampleQueries_def)
  then show ?thesis
  proof cases
    case 1
    then show ?thesis
      by (simp add: generateResponse_def find_response(1) map_of_responses(1))
  next
    case 2
    then show ?thesis
      by (simp add: generateResponse_def find_response(2) map_of_responses(2))
  next
    case 3
    then show ?thesis
      by (simp add: generateResponse_def find_response(3) map_of_responses(3))
  next
    case 4
    then show ?thesis
      by (simp add: generateResponse_def find_response(4) map_of_responses(4))
  qed
qed

lemma matchingQuery_first:
  assumes "matchingQuery content = Some q"
  shows "\<exists>i<length sampleQueries. sampleQueries ! i = q \<and>
           (\<forall>j<i. \<not> sublist (query_prefix (sampleQueries ! j)) (toLowerCase content))"
  using assms unfolding matchingQuery_def find_Some_iff includes_str_iff_sublist
  by blast

lemma generic_response_spelled:
  "generic_response content rs =
          (case rs of
             [] \<Rightarrow>
               ''I searched the knowledge graph but couldn't find specific information about '' @
               [CHR 0x22] @ content @ [CHR 0x22] @
               ''. The graph contains information about GenAI, graph databases, and their '' @
               ''real-world applications. Try asking about GraphRAG, Neo4j use cases, or how '' @
               ''graphs improve AI accuracy.''
           | first # _ \<Rightarrow>
               ''Based on the knowledge graph, I found relevant information in '' @
               js_join '', '' (map node_label rs) @ ''. '' @
               (case map_of (node_properties first) ''description'' of
                  None \<Rightarrow>
                    ''These concepts are interconnected in the graph, showing how they relate '' @
                    ''to your question.''
                | Some v \<Rightarrow>
                    if js_truthy v then js_to_string v
                    else ''These concepts are interconnected in the graph, showing how they '' @
                         ''relate to your question.'') @
               '' The graph structure helps me understand these relationships and provide '' @
               ''more accurate, explainable responses.'')"
  by (cases rs)
    (simp_all add: generic_response_def no_information_found_def description_or_default_def
      default_description_def split: option.splits)

text \<open>
  C6, as the code has it. The first three words of the four stored questions, lowercased,
  are as listed, and every stored question has its narrative in the table. When the
  lowercased query contains the first three words of a stored question, the first such
  question of the list is taken, the answer is its narrative and the pattern shown is its
  query pattern. Otherwise no pattern is shown and the answer is the message that nothing
  was found, with the query quoted, when no node was retrieved, and else the sentence
  template with the labels of the retrieved nodes and with the description attribute of
  the first retrieved node: when that node has no description, or an empty one, the
  fixed sentence stands in, whatever the other retrieved nodes have. A description that
  is a string counts when it is not empty and is put in as it is. The retrieved nodes
  are returned in both cases.
\<close>

theorem canned_or_first_node_description:
  "map query_prefix sampleQueries =
     [''how does graphrag'', ''what companies use'', ''how is graphrag'', ''what are the''] \<and>
   map fst responses = map natural sampleQueries \<and>
   relevantNodes (answer_query content g) = simulateGraphRetrieval content g \<and>
   (matchingQuery content = None \<longleftrightarrow>
      \<not> (\<exists>q\<in>set sampleQueries. sublist (query_prefix q) (toLowerCase content))) \<and>
   (case matchingQuery content of
      Some q \<Rightarrow>
        (\<exists>i<length sampleQueries. sampleQueries ! i = q \<and>
           (\<forall>j<i. \<not> sublist (query_prefix (sampleQueries ! j)) (toLowerCase content))) \<and>
        sublist (query_prefix q) (toLowerCase content) \<and>
        map_of responses (natural q) = Some (responseText (answer_query content g)) \<and>
        cypherQuery (answer_query content g) = Some (cypher q)
    | None \<Rightarrow>
        cypherQuery (answer_query content g) = None \<and>
        responseText (answer_query content g) =
          (case relevantNodes (answer_query content g) of
             [] \<Rightarrow>
               ''I searched the knowledge graph but couldn't find specific information about '' @
               [CHR 0x22] @ content @ [CHR 0x22] @
               ''. The graph contains information about GenAI, graph databases, and their '' @
               ''real-world applications. Try asking about GraphRAG, Neo4j use cases, or how '' @
               ''graphs improve AI accuracy.''
           | first # _ \<Rightarrow>
               ''Based on the knowledge graph, I found relevant information in '' @
               js_join '', '' (map node_label (relevantNodes (answer_query content g))) @ ''. '' @
               (case map_of (node_properties first) ''description'' of
                  None \<Rightarrow>
                    ''These concepts are interconnected in the graph, showing how they relate '' @
                    ''to your question.''
                | Some v \<Rightarrow>
                    if js_truthy v then js_to_string v
                    else ''These concepts are interconnected in the graph, showing how they '' @
                         ''relate to your question.'') @
               '' The graph structure helps me understand these relationships and provide '' @
               ''more accurate, explainable responses.'')) \<and>
   js_truthy (JString t) = (t \<noteq> []) \<and>
   js_to_string (JString t) = t"
proof -
  have prefixes: "map query_prefix sampleQueries =
     [''how does graphrag'', ''what companies use'', ''how is graphrag'', ''what are the'']"
    by (simp add: sampleQueries_def query_prefixes)
  have keys: "map fst responses = map natural sampleQueries"
    by (simp add: responses_def sampleQueries_def naturals)
  have rel: "relevantNodes (answer_query content g) = simulateGraphRetrieval content g"
    by (simp add: answer_query_def Let_def)
  have branch: "case matchingQuery content of
      Some q \<Rightarrow>
        (\<exists>i<length sampleQueries. sampleQueries ! i = q \<and>
           (\<forall>j<i. \<not> sublist (query_prefix (sampleQueries ! j)) (toLowerCase content))) \<and>
        sublist (query_prefix q) (toLowerCase content) \<and>
        map_of responses (natural q) = Some (responseText (answer_query content g)) \<and>
        cypherQuery (answer_query content g) = Some (cypher q)
    | None \<Rightarrow>
        cypherQuery (answer_query content g) = None \<and>
        responseText (answer_query content g) =
          (case relevantNodes (answer_query content g) of
             [] \<Rightarrow>
               ''I searched the knowledge graph but couldn't find specific information about '' @
               [CHR 0x22] @ content @ [CHR 0x22] @
               ''. The graph contains information about GenAI, graph databases, and their '' @
               ''real-world applications. Try asking about GraphRAG, Neo4j use cases, or how '' @
               ''graphs improve AI accuracy.''
           | first # _ \<Rightarrow>
               ''Based on the knowledge graph, I found relevant information in '' @
               js_join '', '' (map node_label (relevantNodes (answer_query content g))) @ ''. '' @
               (case map_of (node_properties first) ''description'' of
                  None \<Rightarrow>
                    ''These concepts are interconnected in the graph, showing how they relate '' @
                    ''to your question.''
                | Some v \<Rightarrow>
                    if js_truthy v then js_to_string v
                    else ''These concepts are interconnected in the graph, showing how they '' @
                         ''relate to your question.'') @
               '' The graph structure helps me understand these relationships and provide '' @
               ''more accurate, explainable responses.'')"
  proof (cases "matchingQuery content")
    case None
    have "responseText (answer_query content g)
            = generic_response content (relevantNodes (answer_query content g))"
      using None by (simp add: answer_query_def Let_def generateResponse_def)
    moreover have "cypherQuery (answer_query content g) = None"
      using None by (simp add: answer_query_def Let_def)
    ultimately show ?thesis
      unfolding None option.case by (simp only: generic_response_spelled simp_thms)
  next
    case (Some q)
    note mem = matchingQuery_Some [OF Some]
    have "map_of responses (natural q) = Some (responseText (answer_query content g))"
      using generateResponse_canned [OF mem(1)] Some
      by (simp add: answer_query_def Let_def)
    moreover have "cypherQuery (answer_query content g) = Some (cypher q)"
      using Some by (simp add: answer_query_def Let_def)
    moreover have "sublist (query_prefix q) (toLowerCase content)"
      using mem(2) by (simp add: includes_str_iff_sublist)
    ultimately show ?thesis
      using Some matchingQuery_first [OF Some] by simp
  qed
  have strings: "js_truthy (JString t) = (t \<noteq> [])" "js_to_string (JString t) = t"
    by simp_all
  from prefixes keys rel matchingQuery_None branch strings show ?thesis
    by blast
qed

theorem canned_or_first_node_description_witness:
  "matchingQuery ''how does graphrag work'' = Some sampleQuery1 \<and>
   responseText (answer_query ''how does graphrag work'' scenario_store) = response1 \<and>
   cypherQuery (answer_query ''how does graphrag work'' scenario_store)
     = Some (cypher sampleQuery1) \<and>
   matchingQuery ''graphrag'' = None \<and>
   responseText (answer_query ''graphrag'' scenario_store) =
     ''Based on the knowledge graph, I found relevant information in GraphRAG. '' @
     ''RAG enhanced with graph database for relationship-aware context retrieval'' @
     '' The graph structure helps me understand these relationships and provide more '' @
     ''accurate, explainable responses.'' \<and>
   matchingQuery ''hi'' = None \<and>
   responseText (answer_query ''hi'' scenario_store) =
     ''I searched the knowledge graph but couldn't find specific information about '' @
     [CHR 0x22] @ ''hi'' @ [CHR 0x22] @
     ''. The graph contains information about GenAI, graph databases, and their '' @
     ''real-world applications. Try asking about GraphRAG, Neo4j use cases, or how '' @
     ''graphs improve AI accuracy.''"
proof -
  have low: "toLowerCase ''how does graphrag work'' = ''how does graphrag work''"
    by code_simp
  have m: "matchingQuery ''how does graphrag work'' = Some sampleQuery1"
    unfolding matchingQuery_def sampleQueries_def low by (simp add: query_prefixes)
  have "map_of responses (natural sampleQuery1)
          = Some (responseText (answer_query ''how does graphrag work'' scenario_store))"
    and c: "cypherQuery (answer_query ''how does graphrag work'' scenario_store)
          = Some (cypher sampleQuery1)"
    using canned_or_first_node_description [of "''how does graphrag work''" scenario_store]
    by (simp_all add: m)
  then have r: "responseText (answer_query ''how does graphrag work'' scenario_store) = response1"
    by (simp add: map_of_responses(1))
  have g: "responseText (answer_query ''graphrag'' scenario_store) =
     ''Based on the knowledge graph, I found relevant information in GraphRAG. '' @
     ''RAG enhanced with graph database for relationship-aware context retrieval'' @
     '' The graph structure helps me understand these relationships and provide more '' @
     ''accurate, explainable responses.''"
    using canned_or_first_node_description [of "''graphrag''" scenario_store]
    by (simp add: answer_graphrag(1,2) node_graphrag_def)
  have h: "responseText (answer_query ''hi'' scenario_store) =
     ''I searched the knowledge graph but couldn't find specific information about '' @
     [CHR 0x22] @ ''hi'' @ [CHR 0x22] @
     ''. The graph contains information about GenAI, graph databases, and their '' @
     ''real-world applications. Try asking about GraphRAG, Neo4j use cases, or how '' @
     ''graphs improve AI accuracy.''"
    using canned_or_first_node_description [of "''hi''" scenario_store]
    by (simp add: answer_hi(1,2))
  show ?thesis
    by (intro conjI m r c g h answer_graphrag(1) answer_hi(1))
qed

lemma regulated_fraud_genai: "\<not> node_matches [''regulated'', ''fraud''] node_genai"
  by code_simp

lemma regulated_fraud_rag: "\<not> node_matches [''regulated'', ''fraud''] node_rag"
  by code_simp

lemma regulated_fraud_graphrag: "\<not> node_matches [''regulated'', ''fraud''] node_graphrag"
  by code_simp

lemma regulated_fraud_llm: "\<not> node_matches [''regulated'', ''fraud''] node_llm"
  by code_simp

lemma regulated_fraud_neo4j: "\<not> node_matches [''regulated'', ''fraud''] node_neo4j"
  by code_simp

lemma regulated_fraud_vectordb: "\<not> node_matches [''regulated'', ''fraud''] node_vectordb"
  by code_simp

lemma regulated_fraud_cypher: "\<not> node_matches [''regulated'', ''fraud''] node_cypher"
  by code_simp

lemma regulated_fraud_knowledge_management: "\<not> node_matches [''regulated'', ''fraud''] node_knowledge_management"
  by code_simp

lemma regulated_fraud_recommendation: "\<not> node_matches [''regulated'', ''fraud''] node_recommendation"
  by code_simp

lemma regulated_fraud_fraud_detection: "node_matches [''regulated'', ''fraud''] node_fraud_detection"
  by code_simp

lemma regulated_fraud_nasa: "\<not> node_matches [''regulated'', ''fraud''] node_nasa"
  by code_simp

lemma regulated_fraud_icij: "\<not> node_matches [''regulated'', ''fraud''] node_icij"
  by code_simp

lemma regulated_fraud_explainability: "node_matches [''regulated'', ''fraud''] node_explainability"
  by code_simp

lemma regulated_fraud_accuracy: "\<not> node_matches [''regulated'', ''fraud''] node_accuracy"
  by code_simp

lemma regulated_fraud_context: "\<not> node_matches [''regulated'', ''fraud''] node_context"
  by code_simp

lemma regulated_fraud_tokens:
  "split_space (toLowerCase ''regulated fraud'') = [''regulated'', ''fraud'']"
  by code_simp

lemma regulated_fraud_retrieval:
  "simulateGraphRetrieval ''regulated fraud'' sampleGraphData
     = [node_fraud_detection, node_explainability]"
  by (simp add: simulateGraphRetrieval_def matching_nodes_def regulated_fraud_tokens
        sampleGraphData_def
        regulated_fraud_genai
        regulated_fraud_rag
        regulated_fraud_graphrag
        regulated_fraud_llm
        regulated_fraud_neo4j
        regulated_fraud_vectordb
        regulated_fraud_cypher
        regulated_fraud_knowledge_management
        regulated_fraud_recommendation
        regulated_fraud_fraud_detection
        regulated_fraud_nasa
        regulated_fraud_icij
        regulated_fraud_explainability
        regulated_fraud_accuracy
        regulated_fraud_context)

lemma regulated_fraud_no_example: "matchingQuery ''regulated fraud'' = None"
  by code_simp

text \<open>
  C6, as it is worded, fails. For the query \<open>regulated fraud\<close> on the dataset no
  stored question matches and the nodes \<open>fraud-detection\<close> and \<open>explainability\<close> are
  retrieved. The first has no description and the second has one, which is therefore
  the first available description; the answer of the code carries the fixed sentence
  instead.
\<close>

theorem first_available_description_counterexample:
  "matchingQuery ''regulated fraud'' = None \<and>
   relevantNodes (answer_query ''regulated fraud'' sampleGraphData)
     = [node_fraud_detection, node_explainability] \<and>
   first_available_description [node_fraud_detection, node_explainability]
     = ''Ability to trace and understand AI decision-making process'' \<and>
   responseText (answer_query ''regulated fraud'' sampleGraphData) =
     ''Based on the knowledge graph, I found relevant information in Fraud Detection, '' @
     ''AI Explainability. These concepts are interconnected in the graph, showing how they '' @
     ''relate to your question. The graph structure helps me understand these '' @
     ''relationships and provide more accurate, explainable responses.'' \<and>
   responseText (answer_query ''regulated fraud'' sampleGraphData)
     \<noteq> worded_generic_response ''regulated fraud'' [node_fraud_detection, node_explainability]"
proof -
  have rel: "relevantNodes (answer_query ''regulated fraud'' sampleGraphData)
     = [node_fraud_detection, node_explainability]"
    by (simp add: answer_query_def Let_def regulated_fraud_retrieval)
  have avail: "first_available_description [node_fraud_detection, node_explainability]
     = ''Ability to trace and understand AI decision-making process''"
    by (simp add: first_available_description_def List.map_filter_def
          node_fraud_detection_def node_explainability_def)
  have resp: "responseText (answer_query ''regulated fraud'' sampleGraphData) =
     ''Based on the knowledge graph, I found relevant information in Fraud Detection, '' @
     ''AI Explainability. These concepts are interconnected in the graph, showing how they '' @
     ''relate to your question. The graph structure helps me understand these '' @
     ''relationships and provide more accurate, explainable responses.''"
    by (simp add: answer_query_def Let_def regulated_fraud_retrieval regulated_fraud_no_example
          generateResponse_def generic_response_def description_or_default_def
          default_description_def node_fraud_detection_def node_explainability_def)
  have differ: "responseText (answer_query ''regulated fraud'' sampleGraphData)
     \<noteq> worded_generic_response ''regulated fraud'' [node_fraud_detection, node_explainability]"
    unfolding resp worded_generic_response_def avail
    by (simp add: node_fraud_detection_def node_explainability_def)
  show ?thesis
    by (intro conjI regulated_fraud_no_example rel avail resp differ)
qed


end
